theory Spec2Isabelle
  imports Main "HOL-Library.Sublist" "HOL-Library.Multiset" "HOL-Library.AList"
begin

section \<open>Overview\<close>

text \<open>
  The repository holds four versions of one Puppeteer scraper. Each reads a list of
  product links, visits every link, extracts a record from the rendered page, and writes
  the succeeded records and the failed links to two JSON files named from the date.
  \<^item> Variant A: \<open>unimed-scraper.js\<close>, lines 1 to 183. Three attempts per link, a browser
    restart every 50 links, a delay before each link.
  \<^item> Variant B: \<open>unimed-scraper.js\<close>, lines 184 to 319. The callback of variant A, one
    attempt, no restart. It is not modelled separately.
  \<^item> Variant C: \<open>unnamed/part_000\<close>, lines 1 to 164. One attempt, images collected
    through a \<open>Set\<close>, an error log.
  \<^item> Variant D: \<open>unnamed/part_000\<close>, lines 165 to 373. The loops of variant A, sections
    rendered as HTML tables, an id derived from the URL.
  Line numbers below refer to these two files.
\<close>

section \<open>JavaScript string operations used by the scrapers\<close>

text \<open>
  Strings are modelled as \<^typ>\<open>string\<close> (lists of 8-bit characters). \<open>trim\<close> and
  \<open>toLowerCase\<close> are defined as \<open>String.prototype.trim\<close> and
  \<open>String.prototype.toLowerCase\<close> act on ASCII text: \<open>trim\<close> removes space, tab, line feed,
  vertical tab, form feed and carriage return at both ends, and \<open>toLowerCase\<close> maps
  \<open>A\<close>..\<open>Z\<close> to \<open>a\<close>..\<open>z\<close>. On other text JavaScript also removes the Unicode white space
  and lowers the other capitals, so a property of arbitrary cell or heading texts is
  stated for ASCII texts (\<open>ascii\<close> below). \<open>replace(':', '')\<close> removes the first colon
  only, and \<open>replace(/ /g, '_')\<close> rewrites every space.
\<close>

definition is_space :: "char \<Rightarrow> bool" where
  "is_space c = (c \<in> set [CHR '' '', CHR 0x09, CHR 0x0A, CHR 0x0B, CHR 0x0C, CHR 0x0D])"

definition trim :: "string \<Rightarrow> string" where
  "trim s = rev (dropWhile is_space (rev (dropWhile is_space s)))"

definition lower_char :: "char \<Rightarrow> char" where
  "lower_char c =
     (case map_of (zip ''ABCDEFGHIJKLMNOPQRSTUVWXYZ'' ''abcdefghijklmnopqrstuvwxyz'') c of
        Some d \<Rightarrow> d
      | None \<Rightarrow> c)"

definition toLowerCase :: "string \<Rightarrow> string" where
  "toLowerCase s = map lower_char s"

text \<open>\<open>s.replace(c, '')\<close> with a one-character string pattern: the first occurrence goes.\<close>

definition replace_first_with_empty :: "char \<Rightarrow> string \<Rightarrow> string" where
  "replace_first_with_empty c s = remove1 c s"

text \<open>\<open>s.replace(/ /g, '_')\<close>.\<close>

definition spaces_to_underscores :: "string \<Rightarrow> string" where
  "spaces_to_underscores s = map (\<lambda>c. if c = CHR '' '' then CHR ''_'' else c) s"

text \<open>\<open>s.startsWith(t)\<close> and \<open>s.includes(t)\<close>.\<close>

definition startsWith :: "string \<Rightarrow> string \<Rightarrow> bool" where
  "startsWith s t = prefix t s"

fun str_includes :: "string \<Rightarrow> string \<Rightarrow> bool" where
  "str_includes [] t = (t = [])"
| "str_includes (c # cs) t = (prefix t (c # cs) \<or> str_includes cs t)"

text \<open>
  \<open>s.split(sep)\<close> for a non-empty separator: the pieces between the successive,
  non-overlapping occurrences of \<open>sep\<close>, scanned from the left. \<open>cur\<close> holds the
  characters of the piece being read, latest first.
\<close>

function split_from :: "string \<Rightarrow> string \<Rightarrow> string \<Rightarrow> string list" where
  "split_from sep cur [] = [rev cur]"
| "split_from sep cur (c # cs) =
     (if sep \<noteq> [] \<and> prefix sep (c # cs)
      then rev cur # split_from sep [] (drop (length sep) (c # cs))
      else split_from sep (c # cur) cs)"
  by pat_completeness auto
termination
  by (relation "measure (\<lambda>(sep, cur, s). length s)") auto

definition split_on :: "string \<Rightarrow> string \<Rightarrow> string list" where
  "split_on sep s = split_from sep [] s"

text \<open>\<open>xs[i]\<close> on a JavaScript array: \<open>undefined\<close> (here \<open>None\<close>) out of range.\<close>

definition at_index :: "'a list \<Rightarrow> nat \<Rightarrow> 'a option" where
  "at_index xs i = (if i < length xs then Some (xs ! i) else None)"

section \<open>The rendered page, as the extractors read it\<close>

text \<open>
  The browser engine is an external collaborator. A rendered page is represented by what
  the selectors of the source return on it, in document order:
  \<^item> \<open>title_text\<close>, \<open>sku_text\<close>: the \<open>innerText\<close> of \<open>h1.ProductMeta__Title\<close> and of
    \<open>span.ProductMeta__SkuNumber\<close>, \<open>None\<close> when \<open>querySelector\<close> returns \<open>null\<close>;
  \<^item> \<open>slideshow_srcs\<close>: the \<open>data-original-src\<close> attribute of each
    \<open>.Product__Slideshow img[data-original-src]\<close>;
  \<^item> \<open>gallery_srcs\<close>: the \<open>src\<close> attribute of each \<open>.ProductGallery__Carousel img[src]\<close>;
  \<^item> \<open>lazy_srcs\<close>: the \<open>data-src\<close> attribute of each \<open>img[data-src]\<close>;
  \<^item> \<open>tables\<close>: the \<open>tr\<close> rows of each \<open>.ProductMeta__Description .TableWrapper table\<close>.
  For a row, \<open>strong_text\<close> is the \<open>innerText\<close> of \<open>row.querySelector('p strong')\<close>
  (\<open>None\<close> for \<open>null\<close>), \<open>row_text\<close> the \<open>innerText\<close> of the row, and \<open>cells\<close> the
  \<open>innerText\<close> of each of its \<open>td\<close> cells.
\<close>

record table_row =
  strong_text :: "string option"
  row_text :: string
  cells :: "string list"

record document =
  title_text :: "string option"
  sku_text :: "string option"
  slideshow_srcs :: "string list"
  gallery_srcs :: "string list"
  lazy_srcs :: "string list"
  tables :: "table_row list list"

section \<open>JavaScript objects and arrays written by the extractors\<close>

text \<open>
  An object whose property values are strings is an association list in insertion order;
  \<open>obj[key] = value\<close> is \<^const>\<open>AList.update\<close> (an existing key keeps its place), except
  for the key \<open>__proto__\<close>: that assignment calls the inherited setter, which ignores a
  string, and stores nothing. An array of strings is a list of \<^typ>\<open>string option\<close>,
  \<open>None\<close> being a hole.

  A property key is an array index when it is the canonical decimal spelling of a number
  below \<open>2^32 - 1\<close>.
\<close>

definition digit_value :: "char \<Rightarrow> nat option" where
  "digit_value c = map_of (zip ''0123456789'' [0, 1, 2, 3, 4, 5, 6, 7, 8, 9]) c"

definition array_index :: "string \<Rightarrow> nat option" where
  "array_index key =
     (case key of
        [] \<Rightarrow> None
      | c # cs \<Rightarrow>
          if c = CHR ''0'' \<and> cs \<noteq> [] then None
          else (case those (map digit_value key) of
                  None \<Rightarrow> None
                | Some ds \<Rightarrow>
                    (let n = foldl (\<lambda>a d. 10 * a + d) 0 ds
                     in if n < 4294967295 then Some n else None)))"

definition object_put :: "string \<Rightarrow> string \<Rightarrow> (string \<times> string) list \<Rightarrow> (string \<times> string) list" where
  "object_put key v obj = (if key = ''__proto__'' then obj else AList.update key v obj)"

subsection \<open>The numeric reading of a string\<close>

text \<open>
  \<open>arr.length = value\<close> reads the string \<open>value\<close> as a number (\<open>ToNumber\<close>): the empty
  string is 0; otherwise an optional sign before \<open>Infinity\<close> or a decimal literal with
  optional fraction and exponent, or an unsigned literal in base 16, 8 or 2; anything else
  is \<open>NaN\<close>. (The cell texts are already trimmed, so no white space is left to skip.) A
  finite reading is kept as a sign and a fraction \<open>a / b\<close>.
\<close>

definition digit_in :: "nat \<Rightarrow> char \<Rightarrow> nat option" where
  "digit_in base c =
     (case map_of (zip ''0123456789abcdef'' [0, 1, 2, 3, 4, 5, 6, 7, 8, 9, 10, 11, 12, 13, 14, 15])
             (lower_char c) of
        None \<Rightarrow> None
      | Some d \<Rightarrow> if d < base then Some d else None)"

definition digits_value :: "nat \<Rightarrow> string \<Rightarrow> nat option" where
  "digits_value base s =
     (if s = [] then None
      else case those (map (digit_in base) s) of
             None \<Rightarrow> None
           | Some ds \<Rightarrow> Some (foldl (\<lambda>a d. base * a + d) 0 ds))"

definition is_digit :: "char \<Rightarrow> bool" where
  "is_digit c = (digit_in 10 c \<noteq> None)"

datatype number = NaN | Infinite | Ratio bool nat nat

definition exponent_part :: "string \<Rightarrow> int option" where
  "exponent_part s =
     (case s of
        [] \<Rightarrow> Some 0
      | c # r \<Rightarrow>
          if c = CHR ''e'' \<or> c = CHR ''E'' then
            (case r of
               CHR ''+'' # ds \<Rightarrow> map_option int (digits_value 10 ds)
             | CHR ''-'' # ds \<Rightarrow> map_option (\<lambda>n. - int n) (digits_value 10 ds)
             | _ \<Rightarrow> map_option int (digits_value 10 r))
          else None)"

definition unsigned_decimal :: "string \<Rightarrow> (nat \<times> nat) option" where
  "unsigned_decimal s =
     (let whole = takeWhile is_digit s;
          rest = dropWhile is_digit s;
          fraction = (case rest of CHR ''.'' # r \<Rightarrow> takeWhile is_digit r | _ \<Rightarrow> []);
          tail = (case rest of CHR ''.'' # r \<Rightarrow> dropWhile is_digit r | _ \<Rightarrow> rest)
      in if whole = [] \<and> fraction = [] then None
         else case (digits_value 10 (whole @ fraction), exponent_part tail) of
                (Some m, Some e) \<Rightarrow>
                  (let k = e - int (length fraction)
                   in if 0 \<le> k then Some (m * 10 ^ nat k, 1) else Some (m, 10 ^ nat (- k)))
              | _ \<Rightarrow> None)"

definition decimal :: "bool \<Rightarrow> string \<Rightarrow> number" where
  "decimal negative s =
     (if s = ''Infinity'' then Infinite
      else case unsigned_decimal s of None \<Rightarrow> NaN | Some (a, b) \<Rightarrow> Ratio negative a b)"

definition radix_literal :: "string \<Rightarrow> nat option" where
  "radix_literal s =
     (case s of
        CHR ''0'' # c # ds \<Rightarrow>
          if c = CHR ''x'' \<or> c = CHR ''X'' then digits_value 16 ds
          else if c = CHR ''o'' \<or> c = CHR ''O'' then digits_value 8 ds
          else if c = CHR ''b'' \<or> c = CHR ''B'' then digits_value 2 ds
          else None
      | _ \<Rightarrow> None)"

definition to_number :: "string \<Rightarrow> number" where
  "to_number s =
     (case s of
        [] \<Rightarrow> Ratio False 0 1
      | CHR ''+'' # u \<Rightarrow> decimal False u
      | CHR ''-'' # u \<Rightarrow> decimal True u
      | _ \<Rightarrow> (case radix_literal s of Some n \<Rightarrow> Ratio False n 1 | None \<Rightarrow> decimal False s))"

text \<open>The number of binary digits of a number.\<close>

function bit_length :: "nat \<Rightarrow> nat" where
  "bit_length n = (if n = 0 then 0 else Suc (bit_length (n div 2)))"
  by pat_completeness auto
termination
  by (relation "measure id") auto

declare bit_length.simps [simp del]

text \<open>
  The reading is rounded to the nearest double (ties to the even mantissa, as V8 rounds),
  and the assignment to \<open>length\<close> is accepted when the double is an integer from 0 to
  \<open>2^32 - 1\<close>; it raises \<open>RangeError\<close> otherwise. Doubles next to an integer \<open>n\<close> from 1 to
  \<open>2^32 - 1\<close> with \<open>bit_length n = e + 1\<close> lie \<open>2^(e - 52)\<close> apart (\<open>2^(e - 53)\<close> just below a
  power of two), and the mantissa of \<open>n\<close> is even, so \<open>a / b\<close> rounds to \<open>n\<close> exactly when it
  is within half that distance of \<open>n\<close>. A fraction rounds to zero exactly when it is at
  most \<open>2^(-1075)\<close>. \<open>array_length v\<close> is the accepted length, \<open>None\<close> for \<open>RangeError\<close>.
\<close>

definition array_length :: "string \<Rightarrow> nat option" where
  "array_length v =
     (case to_number v of
        NaN \<Rightarrow> None
      | Infinite \<Rightarrow> None
      | Ratio negative a b \<Rightarrow>
          (let n = (2 * a + b) div (2 * b)
           in if n = 0 then (if a * 2 ^ 1075 \<le> b then Some 0 else None)
              else if negative \<or> 4294967295 < n then None
              else (let up = 54 - bit_length n;
                        down = (if n = 2 ^ (bit_length n - 1) then Suc up else up)
                    in if a * 2 ^ up \<le> b * (n * 2 ^ up + 1)
                          \<and> b * (n * 2 ^ down - 1) \<le> a * 2 ^ down
                       then Some n else None)))"

subsection \<open>Assignments\<close>

datatype js_error = RangeError | TypeError

text \<open>
  \<open>arr[key] = value\<close> on an array: an index key stores the element, padding with holes
  when the index is beyond the end; the key \<open>length\<close> truncates the array or pads it with
  holes, or raises \<open>RangeError\<close>; any other key adds a property that is not an element
  (and \<open>__proto__\<close> with a string is ignored).
\<close>

definition array_put ::
  "string option list \<Rightarrow> string \<Rightarrow> string \<Rightarrow> js_error + string option list"
where
  "array_put arr key v =
     (case array_index key of
        Some i \<Rightarrow>
          Inr (if i < length arr then arr[i := Some v]
               else arr @ replicate (i - length arr) None @ [Some v])
      | None \<Rightarrow>
          if key = ''length'' then
            (case array_length v of
               None \<Rightarrow> Inl RangeError
             | Some n \<Rightarrow> Inr (take n arr @ replicate (n - length arr) None))
          else Inr arr)"

text \<open>
  \<open>Object.entries(obj)\<close> lists the index keys first, in ascending numeric order, then the
  other keys in insertion order.
\<close>

definition own_entries :: "(string \<times> string) list \<Rightarrow> (string \<times> string) list" where
  "own_entries obj =
     sort_key (\<lambda>(k, v). case array_index k of Some i \<Rightarrow> i | None \<Rightarrow> 0)
       (filter (\<lambda>(k, v). array_index k \<noteq> None) obj)
     @ filter (\<lambda>(k, v). array_index k = None) obj"

subsection \<open>Inherited properties\<close>

text \<open>
  \<open>data\<close> and \<open>tempData\<close> are object literals, so a name that is not an own property is
  looked up in \<open>Object.prototype\<close>. The callbacks can write there: \<open>obj['__proto__']\<close> is
  \<open>Object.prototype\<close> itself and \<open>obj['constructor']\<close> is the function \<open>Object\<close>. A
  \<open>realm\<close> holds the string properties that the callback has stored on
  \<open>Object.prototype\<close> and on \<open>Object\<close> since the page was loaded; every page starts with
  none.
\<close>

record realm =
  proto_props :: "(string \<times> string) list"
  object_props :: "(string \<times> string) list"

definition fresh_realm :: realm where
  "fresh_realm = \<lparr>proto_props = [], object_props = []\<rparr>"

text \<open>What \<open>obj[name]\<close> evaluates to, as far as the callbacks tell the cases apart.\<close>

datatype property =
    Section string
  | Images_array
  | Text string
  | Object_function
  | Method
  | Object_prototype
  | Undefined

text \<open>
  A name looked up in \<open>Object.prototype\<close>: \<open>__proto__\<close> is an accessor and always gives
  the prototype; a string stored by the callback comes next; then the built-in members.
\<close>

definition inherited :: "realm \<Rightarrow> string \<Rightarrow> property" where
  "inherited rlm name =
     (if name = ''__proto__'' then Object_prototype
      else case map_of (proto_props rlm) name of
             Some v \<Rightarrow> Text v
           | None \<Rightarrow>
               if name = ''constructor'' then Object_function
               else if name \<in> set [''hasOwnProperty'', ''isPrototypeOf'', ''propertyIsEnumerable'',
                                   ''toLocaleString'', ''toString'', ''valueOf'',
                                   ''__defineGetter__'', ''__defineSetter__'',
                                   ''__lookupGetter__'', ''__lookupSetter__'']
                 then Method
               else Undefined)"

definition truthy :: "property \<Rightarrow> bool" where
  "truthy p = (case p of Undefined \<Rightarrow> False | Text s \<Rightarrow> s \<noteq> [] | _ \<Rightarrow> True)"

text \<open>
  \<open>f[key] = value\<close> on a built-in function: \<open>caller\<close> and \<open>arguments\<close> are inherited
  accessors whose setter throws \<open>TypeError\<close>; \<open>length\<close>, \<open>name\<close> and \<open>prototype\<close> are not
  writable and the assignment is ignored (the callbacks are not strict-mode code), as is
  \<open>__proto__\<close> with a string; any other key is stored.
\<close>

definition function_put ::
  "string \<Rightarrow> string \<Rightarrow> (string \<times> string) list \<Rightarrow> js_error + (string \<times> string) list"
where
  "function_put key v props =
     (if key \<in> set [''caller'', ''arguments''] then Inl TypeError
      else if key \<in> set [''length'', ''name'', ''prototype'', ''__proto__''] then Inr props
      else Inr (AList.update key v props))"

text \<open>
  A statement either completes or throws; \<open>Thrown\<close> keeps the state reached at the
  throw, which is what the inner \<open>catch\<close> of the callbacks returns from.
\<close>

datatype 's completion = Running 's | Thrown js_error 's

definition continue :: "('s \<Rightarrow> 's completion) \<Rightarrow> 's completion \<Rightarrow> 's completion" where
  "continue f c = (case c of Running st \<Rightarrow> f st | Thrown e st \<Rightarrow> Thrown e st)"

definition state_of :: "'s completion \<Rightarrow> 's" where
  "state_of c = (case c of Running st \<Rightarrow> st | Thrown e st \<Rightarrow> st)"

section \<open>Page extraction, variant A\<close>

text \<open>
  The callback passed to \<open>page.evaluate\<close> in \<open>scrapeProduct\<close> of \<open>unimed-scraper.js\<close>
  (lines 37 to 107): it fills the object \<open>data\<close> and returns it. An error thrown while the
  tables are read is caught by the inner \<open>catch\<close> (line 102), and \<open>data\<close> is returned as it
  is then.
\<close>

record productData =
  product_name :: string
  part_number :: string
  images :: "string option list"
  oem_reference :: "(string \<times> string) list"
  compatibility :: "(string \<times> string) list"
  technical_specifications :: "(string \<times> string) list"

definition text_or_empty :: "string option \<Rightarrow> string" where
  "text_or_empty e = (case e of None \<Rightarrow> [] | Some t \<Rightarrow> trim t)"

text \<open>Lines 61 to 67: every non-empty \<open>data-original-src\<close> is pushed behind \<open>https:\<close>.\<close>

definition push_images :: "string list \<Rightarrow> string option list" where
  "push_images srcs =
     map (\<lambda>imgSrc. Some (''https:'' @ imgSrc)) (filter (\<lambda>imgSrc. imgSrc \<noteq> []) srcs)"

text \<open>Lines 80 to 86: the three known headings.\<close>

definition resolve_heading :: "string \<Rightarrow> string" where
  "resolve_heading sectionName =
     (if str_includes sectionName ''oem_part_number_cross_references'' then ''oem_reference''
      else if str_includes sectionName ''compatibility'' then ''compatibility''
      else if str_includes sectionName ''technical_specifications''
        then ''technical_specifications''
      else sectionName)"

text \<open>Lines 74 to 87: the section name of a table, \<open>''\<close> when the first row has no \<open>p strong\<close>.\<close>

definition sectionName_of :: "table_row list \<Rightarrow> string" where
  "sectionName_of rows =
     (case rows of
        [] \<Rightarrow> []
      | r # _ \<Rightarrow>
          (case strong_text r of
             None \<Rightarrow> []
           | Some _ \<Rightarrow>
               resolve_heading
                 (spaces_to_underscores (toLowerCase
                    (replace_first_with_empty CHR '':'' (trim (row_text r)))))))"

text \<open>
  \<open>data[sectionName]\<close>: \<open>data\<close> has six own properties, the three section objects, the
  array \<open>images\<close> and the strings \<open>product_name\<close> and \<open>part_number\<close>; any other name is
  inherited.
\<close>

definition data_property :: "realm \<Rightarrow> productData \<Rightarrow> string \<Rightarrow> property" where
  "data_property rlm data name =
     (if name \<in> set [''oem_reference'', ''compatibility'', ''technical_specifications'']
        then Section name
      else if name = ''images'' then Images_array
      else if name = ''product_name'' then Text (product_name data)
      else if name = ''part_number'' then Text (part_number data)
      else inherited rlm name)"

text \<open>Line 95, the guard \<open>sectionName && data[sectionName]\<close>.\<close>

definition section_guard :: "string \<Rightarrow> productData \<times> realm \<Rightarrow> bool" where
  "section_guard sectionName st =
     (case st of (data, rlm) \<Rightarrow>
        sectionName \<noteq> [] \<and> truthy (data_property rlm data sectionName))"

definition section_put :: "string \<Rightarrow> string \<Rightarrow> string \<Rightarrow> productData \<Rightarrow> productData" where
  "section_put name key v data =
     (if name = ''oem_reference''
        then data\<lparr>oem_reference := object_put key v (oem_reference data)\<rparr>
      else if name = ''compatibility''
        then data\<lparr>compatibility := object_put key v (compatibility data)\<rparr>
      else data\<lparr>technical_specifications :=
                  object_put key v (technical_specifications data)\<rparr>)"

text \<open>
  Line 96, \<open>data[sectionName][key] = value\<close>: a section object gets the pair; the array
  \<open>images\<close> gets the property; a property write on a string primitive is ignored; a
  write to \<open>Object\<close> or to \<open>Object.prototype\<close> goes to the realm; a write to
  \<open>undefined\<close> throws (the guard rules it out).
\<close>

definition put_section ::
  "string \<Rightarrow> string \<Rightarrow> string \<Rightarrow> productData \<times> realm \<Rightarrow> (productData \<times> realm) completion"
where
  "put_section sectionName key v st =
     (case st of (data, rlm) \<Rightarrow>
        (case data_property rlm data sectionName of
           Section name \<Rightarrow> Running (section_put name key v data, rlm)
         | Images_array \<Rightarrow>
             (case array_put (images data) key v of
                Inl e \<Rightarrow> Thrown e st
              | Inr arr \<Rightarrow> Running (data\<lparr>images := arr\<rparr>, rlm))
         | Text _ \<Rightarrow> Running st
         | Object_function \<Rightarrow>
             (case function_put key v (object_props rlm) of
                Inl e \<Rightarrow> Thrown e st
              | Inr props \<Rightarrow> Running (data, rlm\<lparr>object_props := props\<rparr>))
         | Method \<Rightarrow>
             (case function_put key v [] of Inl e \<Rightarrow> Thrown e st | Inr _ \<Rightarrow> Running st)
         | Object_prototype \<Rightarrow>
             Running (data, rlm\<lparr>proto_props := object_put key v (proto_props rlm)\<rparr>)
         | Undefined \<Rightarrow> Thrown TypeError st))"

text \<open>Lines 90 to 99: one row of the loop \<open>for (let i = 1; i < rows.length; i++)\<close>.\<close>

definition table_row_step ::
  "string \<Rightarrow> table_row \<Rightarrow> productData \<times> realm \<Rightarrow> (productData \<times> realm) completion"
where
  "table_row_step sectionName r st =
     (case cells r of
        [c0, c1] \<Rightarrow>
          (let key = spaces_to_underscores (toLowerCase (trim c0));
               v = trim c1
           in if section_guard sectionName st then put_section sectionName key v st
              else Running st)
      | _ \<Rightarrow> Running st)"

text \<open>Lines 72 to 100: one table; nothing runs once an error has been thrown.\<close>

definition process_table ::
  "table_row list \<Rightarrow> (productData \<times> realm) completion \<Rightarrow> (productData \<times> realm) completion"
where
  "process_table rows c =
     fold (\<lambda>r. continue (table_row_step (sectionName_of rows) r)) (drop 1 rows) c"

definition extract_A :: "document \<Rightarrow> productData" where
  "extract_A doc =
     fst (state_of (fold process_table (tables doc)
       (Running
          (\<lparr>product_name = text_or_empty (title_text doc),
            part_number = text_or_empty (sku_text doc),
            images = push_images (slideshow_srcs doc),
            oem_reference = [],
            compatibility = [],
            technical_specifications = []\<rparr>,
           fresh_realm))))"

section \<open>Page extraction, variant C\<close>

text \<open>
  The callback of the first program of \<open>unnamed/part_000\<close> (lines 25 to 111). Images go
  through a \<open>Set\<close>, modelled as the list of its elements in insertion order; the tables
  are read as in variant A, after \<open>data.images\<close> has been assigned.
\<close>

definition set_add :: "'a \<Rightarrow> 'a list \<Rightarrow> 'a list" where
  "set_add x s = (if x \<in> set s then s else s @ [x])"

text \<open>
  Line 50, \<open>fullUrl.split('?')[0]\<close>: the first piece of the split. A split always has a
  first piece (\<open>split_from_not_Nil\<close> below), so the first branch is never taken.
\<close>

definition strip_query :: "string \<Rightarrow> string" where
  "strip_query fullUrl =
     (case split_on ''?'' fullUrl of [] \<Rightarrow> fullUrl | piece # _ \<Rightarrow> piece)"

text \<open>Lines 47 to 53.\<close>

definition addValidImageUrl :: "string \<Rightarrow> string list \<Rightarrow> string list" where
  "addValidImageUrl imgSrc imageUrls =
     (if imgSrc \<noteq> [] \<and> \<not> str_includes imgSrc ''{width}''
      then (let fullUrl = (if startsWith imgSrc ''http'' then imgSrc else ''https:'' @ imgSrc);
                urlWithoutQuery = strip_query fullUrl
            in set_add urlWithoutQuery imageUrls)
      else imageUrls)"

text \<open>Lines 55 to 73: the slideshow, the gallery when the set is still empty, the lazy images.\<close>

definition collect_images :: "document \<Rightarrow> string list" where
  "collect_images doc =
     (let primary = fold addValidImageUrl (slideshow_srcs doc) [];
          with_fallback =
            (if length primary = 0 then fold addValidImageUrl (gallery_srcs doc) primary
             else primary)
      in fold addValidImageUrl (lazy_srcs doc) with_fallback)"

definition extract_C :: "document \<Rightarrow> productData" where
  "extract_C doc =
     fst (state_of (fold process_table (tables doc)
       (Running
          (\<lparr>product_name = text_or_empty (title_text doc),
            part_number = text_or_empty (sku_text doc),
            images = map Some (collect_images doc),
            oem_reference = [],
            compatibility = [],
            technical_specifications = []\<rparr>,
           fresh_realm))))"

section \<open>Page extraction, variant D\<close>

text \<open>
  The callback of the second program of \<open>unnamed/part_000\<close> (lines 201 to 297). The rows
  are collected in \<open>tempData\<close>, an object with the three section properties only, and
  rendered as HTML tables; the key of a row is trimmed and nothing else. An error thrown
  on the way is caught by the inner \<open>catch\<close> (line 292), which leaves the fields not yet
  assigned as they were, empty.
\<close>

record tempData =
  temp_oem_reference :: "(string \<times> string) list"
  temp_compatibility :: "(string \<times> string) list"
  temp_technical_specifications :: "(string \<times> string) list"

record productData_D =
  product_name_D :: string
  part_number_D :: string
  images_D :: "string option list"
  oem_reference_D :: string
  compatibility_D :: string
  technical_specifications_D :: string
  product_category_string :: string

text \<open>
  Lines 203 to 211. \<open>Object.keys\<close> and \<open>Object.entries\<close> are read from \<open>Object\<close> at the
  call; when the callback has stored a string under that name, the call throws
  \<open>TypeError\<close>.
\<close>

definition createTableHTML :: "realm \<Rightarrow> (string \<times> string) list \<Rightarrow> js_error + string" where
  \<open>createTableHTML rlm obj =
     (if map_of (object_props rlm) ''keys'' \<noteq> None then Inl TypeError
      else if length obj = 0 then Inr []
      else if map_of (object_props rlm) ''entries'' \<noteq> None then Inl TypeError
      else Inr (''<table border="1">''
                @ concat (map (\<lambda>(key, v). ''<tr><td>'' @ key @ ''</td><td>'' @ v @ ''</td></tr>'')
                            (own_entries obj))
                @ ''</table>''))\<close>

text \<open>Lines 251 to 266: the heading is the text of the \<open>p strong\<close> element itself.\<close>

definition sectionName_of_D :: "table_row list \<Rightarrow> string" where
  "sectionName_of_D rows =
     (case rows of
        [] \<Rightarrow> []
      | r # _ \<Rightarrow>
          (case strong_text r of
             None \<Rightarrow> []
           | Some heading \<Rightarrow>
               resolve_heading (spaces_to_underscores (toLowerCase (trim heading)))))"

text \<open>\<open>tempData[sectionName]\<close>: the three section objects are the own properties.\<close>

definition temp_property :: "realm \<Rightarrow> string \<Rightarrow> property" where
  "temp_property rlm name =
     (if name \<in> set [''oem_reference'', ''compatibility'', ''technical_specifications'']
        then Section name
      else inherited rlm name)"

text \<open>Line 269: the table is skipped when \<open>!sectionName || !tempData[sectionName]\<close>.\<close>

definition temp_guard :: "string \<Rightarrow> tempData \<times> realm \<Rightarrow> bool" where
  "temp_guard sectionName st =
     (case st of (t, rlm) \<Rightarrow> sectionName \<noteq> [] \<and> truthy (temp_property rlm sectionName))"

definition temp_put :: "string \<Rightarrow> string \<Rightarrow> string \<Rightarrow> tempData \<Rightarrow> tempData" where
  "temp_put name key v t =
     (if name = ''oem_reference''
        then t\<lparr>temp_oem_reference := object_put key v (temp_oem_reference t)\<rparr>
      else if name = ''compatibility''
        then t\<lparr>temp_compatibility := object_put key v (temp_compatibility t)\<rparr>
      else t\<lparr>temp_technical_specifications :=
               object_put key v (temp_technical_specifications t)\<rparr>)"

text \<open>
  Line 278, \<open>tempData[sectionName][key] = value\<close>; the last case is a string inherited from
  \<open>Object.prototype\<close>, on which the write is ignored.
\<close>

definition put_temp ::
  "string \<Rightarrow> string \<Rightarrow> string \<Rightarrow> tempData \<times> realm \<Rightarrow> (tempData \<times> realm) completion"
where
  "put_temp sectionName key v st =
     (case st of (t, rlm) \<Rightarrow>
        (case temp_property rlm sectionName of
           Section name \<Rightarrow> Running (temp_put name key v t, rlm)
         | Object_function \<Rightarrow>
             (case function_put key v (object_props rlm) of
                Inl e \<Rightarrow> Thrown e st
              | Inr props \<Rightarrow> Running (t, rlm\<lparr>object_props := props\<rparr>))
         | Method \<Rightarrow>
             (case function_put key v [] of Inl e \<Rightarrow> Thrown e st | Inr _ \<Rightarrow> Running st)
         | Object_prototype \<Rightarrow>
             Running (t, rlm\<lparr>proto_props := object_put key v (proto_props rlm)\<rparr>)
         | Undefined \<Rightarrow> Thrown TypeError st
         | _ \<Rightarrow> Running st))"

text \<open>Lines 272 to 281: every row of the table, the first included.\<close>

definition table_row_step_D ::
  "string \<Rightarrow> table_row \<Rightarrow> tempData \<times> realm \<Rightarrow> (tempData \<times> realm) completion"
where
  "table_row_step_D sectionName r st =
     (case cells r of
        [c0, c1] \<Rightarrow>
          (let key = trim c0; v = trim c1
           in if key \<noteq> [] then put_temp sectionName key v st else Running st)
      | _ \<Rightarrow> Running st)"

definition process_table_D ::
  "table_row list \<Rightarrow> (tempData \<times> realm) completion \<Rightarrow> (tempData \<times> realm) completion"
where
  "process_table_D rows c =
     continue
       (\<lambda>st. let sectionName = sectionName_of_D rows
             in if \<not> temp_guard sectionName st then Running st
                else fold (\<lambda>r. continue (table_row_step_D sectionName r)) rows (Running st))
       c"

definition collect_temp :: "document \<Rightarrow> (tempData \<times> realm) completion" where
  "collect_temp doc =
     fold process_table_D (tables doc)
       (Running
          (\<lparr>temp_oem_reference = [], temp_compatibility = [],
            temp_technical_specifications = []\<rparr>,
           fresh_realm))"

definition collect_tempData :: "document \<Rightarrow> tempData" where
  "collect_tempData doc = fst (state_of (collect_temp doc))"

text \<open>
  Line 285, \<open>tempData.technical_specifications['Category'] || ''\<close>: the own property, or
  else the one inherited from \<open>Object.prototype\<close>.
\<close>

definition category_of :: "realm \<Rightarrow> (string \<times> string) list \<Rightarrow> string" where
  "category_of rlm specs =
     (case map_of specs ''Category'' of
        Some v \<Rightarrow> v
      | None \<Rightarrow> (case map_of (proto_props rlm) ''Category'' of Some v \<Rightarrow> v | None \<Rightarrow> []))"

text \<open>
  Lines 285 to 290, run when the tables were read without an error: the category, then
  the three HTML tables in turn, up to the first call that throws.
\<close>

definition render_sections :: "tempData \<times> realm \<Rightarrow> productData_D \<Rightarrow> productData_D" where
  "render_sections st data =
     (case st of (t, rlm) \<Rightarrow>
        (let d0 = data\<lparr>product_category_string :=
                         category_of rlm (temp_technical_specifications t)\<rparr>
         in case createTableHTML rlm (temp_oem_reference t) of
              Inl e \<Rightarrow> d0
            | Inr oem_html \<Rightarrow>
                (let d1 = d0\<lparr>oem_reference_D := oem_html\<rparr>
                 in case createTableHTML rlm (temp_compatibility t) of
                      Inl e \<Rightarrow> d1
                    | Inr compat_html \<Rightarrow>
                        (let d2 = d1\<lparr>compatibility_D := compat_html\<rparr>
                         in case createTableHTML rlm (temp_technical_specifications t) of
                              Inl e \<Rightarrow> d2
                            | Inr specs_html \<Rightarrow>
                                d2\<lparr>technical_specifications_D := specs_html\<rparr>))))"

definition extract_D :: "document \<Rightarrow> productData_D" where
  "extract_D doc =
     (let data = \<lparr>product_name_D = text_or_empty (title_text doc),
                  part_number_D = text_or_empty (sku_text doc),
                  images_D = push_images (slideshow_srcs doc),
                  oem_reference_D = [],
                  compatibility_D = [],
                  technical_specifications_D = [],
                  product_category_string = []\<rparr>
      in case collect_temp doc of
           Running st \<Rightarrow> render_sections st data
         | Thrown e st \<Rightarrow> data)"

section \<open>The page as a collaborator, and observable events\<close>

text \<open>
  One attempt of \<open>scrapeProduct\<close> runs \<open>page.goto\<close>, \<open>page.waitForSelector\<close> and
  \<open>page.evaluate\<close> inside one \<open>try\<close> block. The browser answers an attempt in one of four
  ways: one of the three calls rejects with an error message, or the page renders and the
  callback runs on the document. Timers, the console and the file system are taken to
  work; their calls are recorded as events, log lines and file writes.
\<close>

datatype page_response =
    Goto_rejects string
  | WaitForSelector_rejects string
  | Evaluate_rejects string
  | Renders document

datatype event = Goto string | Delay nat

text \<open>The settled state of an awaited promise.\<close>

datatype 'a awaited = Resolved 'a | Rejected string

record target =
  product_link :: string

definition BATCH_SIZE :: nat where "BATCH_SIZE = 50"
definition RETRY_LIMIT :: nat where "RETRY_LIMIT = 3"
definition DELAY_MS :: nat where "DELAY_MS = 2000"

section \<open>scrapeProduct with retries, variants A and D\<close>

text \<open>
  \<open>unimed-scraper.js\<close> lines 30 to 118 and \<open>part_000\<close> lines 194 to 307: the same loop
  around two different callbacks. \<open>page k\<close> is the browser's answer to the attempt made
  when \<open>attempts = k\<close>. The result is the returned value (\<open>None\<close> for \<open>null\<close>) and the
  events of the call, in order.
\<close>

function scrapeProduct_loop ::
  "(document \<Rightarrow> 'r) \<Rightarrow> (nat \<Rightarrow> page_response) \<Rightarrow> string \<Rightarrow> nat \<Rightarrow> 'r option \<times> event list"
where
  "scrapeProduct_loop callback page url attempts =
     (if attempts < RETRY_LIMIT then
        (case page attempts of
           Renders doc \<Rightarrow> (Some (callback doc), [Goto url])
         | _ \<Rightarrow>
             (let (result, evs) = scrapeProduct_loop callback page url (attempts + 1)
              in (result, Goto url # Delay 2000 # evs)))
      else (None, []))"
  by pat_completeness auto
termination
  by (relation "measure (\<lambda>(callback, page, url, attempts). RETRY_LIMIT - attempts)") auto

declare scrapeProduct_loop.simps [simp del]

definition scrapeProduct_A ::
  "(nat \<Rightarrow> page_response) \<Rightarrow> string \<Rightarrow> productData option \<times> event list"
where
  "scrapeProduct_A page url = scrapeProduct_loop extract_A page url 0"

definition scrapeProduct_D ::
  "(nat \<Rightarrow> page_response) \<Rightarrow> string \<Rightarrow> productData_D option \<times> event list"
where
  "scrapeProduct_D page url = scrapeProduct_loop extract_D page url 0"

section \<open>scrapeProduct with the error log, variant C\<close>

text \<open>
  \<open>part_000\<close> lines 8 to 11 and 18 to 123. A call of \<open>logErrorToFile\<close> appends one
  line to one file; the log is the list of these (path, line) pairs in order, and
  \<open>scrapeProduct\<close> returns the ones it appended. There is one attempt; the record gets
  \<open>scrape_date\<close> on return.
\<close>

record productData_C = productData +
  scrape_date :: string

type_synonym log = "(string \<times> string) list"

definition logErrorToFile :: "string \<Rightarrow> string \<Rightarrow> string \<Rightarrow> string \<times> string" where
  "logErrorToFile formattedDate url errorMessage =
     (''logs/image_scraping_errors_'' @ formattedDate @ ''.log'',
      formattedDate @ '' - URL: '' @ url @ '' - Error: '' @ errorMessage @ [CHR 0x0A])"

text \<open>Lines 18 to 123, for any callback handed to \<open>page.evaluate\<close>.\<close>

definition scrapeProduct_once ::
  "(document \<Rightarrow> productData) \<Rightarrow> string \<Rightarrow> page_response \<Rightarrow> string \<Rightarrow>
   productData_C option \<times> log"
where
  "scrapeProduct_once callback formattedDate response url =
     (case response of
        Renders doc \<Rightarrow>
          (let productData = callback doc
           in (Some (productData.extend productData (productData_C.fields formattedDate)),
               if length (images productData) = 0
               then [logErrorToFile formattedDate url ''No images found for this product'']
               else []))
      | Goto_rejects m \<Rightarrow>
          (None, [logErrorToFile formattedDate url (''Error scraping product: '' @ m)])
      | WaitForSelector_rejects m \<Rightarrow>
          (None, [logErrorToFile formattedDate url (''Error scraping product: '' @ m)])
      | Evaluate_rejects m \<Rightarrow>
          (None, [logErrorToFile formattedDate url (''Error scraping product: '' @ m)]))"

definition scrapeProduct_C ::
  "string \<Rightarrow> page_response \<Rightarrow> string \<Rightarrow> productData_C option \<times> log"
where
  "scrapeProduct_C formattedDate response url =
     scrapeProduct_once extract_C formattedDate response url"

section \<open>The main loop with browser restarts, variants A and D\<close>

text \<open>
  \<open>unimed-scraper.js\<close> lines 132 to 170 and \<open>part_000\<close> lines 321 to 360. The two loops
  differ in the object pushed for a success only (\<open>{url, data}\<close> against \<open>{url, id, data}\<close>),
  which is the parameter \<open>entry\<close>. \<open>browser\<close> counts the calls of \<open>launchBrowser\<close>, so it
  names the live instance; \<open>restarted_at\<close> records the indices at which the restart block
  (lines 138 to 148) ran. The awaited call \<open>scrapeProduct(page, url)\<close> of iteration \<open>i\<close>
  is \<open>scrape i url\<close>: a value or \<open>null\<close>, or a rejection, with the events of the call.
\<close>

record 's run_state =
  scrapedData :: "'s list"
  failedLinks :: "string list"
  browser :: nat
  restarted_at :: "nat list"
  events :: "event list"

definition restart_browser :: "nat \<Rightarrow> 's run_state \<Rightarrow> 's run_state" where
  "restart_browser i st =
     st\<lparr>browser := browser st + 1, restarted_at := restarted_at st @ [i]\<rparr>"

text \<open>The \<open>try\<close> block of one iteration, with its \<open>catch\<close>.\<close>

definition visit ::
  "(string \<Rightarrow> 'r \<Rightarrow> 's) \<Rightarrow> (nat \<Rightarrow> string \<Rightarrow> 'r option awaited \<times> event list) \<Rightarrow>
   nat \<Rightarrow> string \<Rightarrow> 's run_state \<Rightarrow> 's run_state"
where
  "visit entry scrape i url st =
     (case scrape i url of
        (Resolved (Some data), evs) \<Rightarrow>
          st\<lparr>scrapedData := scrapedData st @ [entry url data],
             events := events st @ Delay DELAY_MS # evs\<rparr>
      | (Resolved None, evs) \<Rightarrow>
          st\<lparr>failedLinks := failedLinks st @ [url],
             events := events st @ Delay DELAY_MS # evs\<rparr>
      | (Rejected m, evs) \<Rightarrow>
          st\<lparr>failedLinks := failedLinks st @ [url],
             events := events st @ Delay DELAY_MS # evs\<rparr>)"

function main_loop ::
  "(string \<Rightarrow> 'r \<Rightarrow> 's) \<Rightarrow> (nat \<Rightarrow> string \<Rightarrow> 'r option awaited \<times> event list) \<Rightarrow>
   target list \<Rightarrow> nat \<Rightarrow> 's run_state \<Rightarrow> 's run_state"
where
  "main_loop entry scrape productLinks i st =
     (if i < length productLinks then
        (let st1 = (if i mod BATCH_SIZE = 0 \<and> i \<noteq> 0 then restart_browser i st else st);
             url = product_link (productLinks ! i)
         in main_loop entry scrape productLinks (i + 1) (visit entry scrape i url st1))
      else st)"
  by pat_completeness auto
termination
  by (relation "measure (\<lambda>(entry, scrape, productLinks, i, st). length productLinks - i)") auto

declare main_loop.simps [simp del]

definition initial_state :: "'s run_state" where
  "initial_state =
     \<lparr>scrapedData = [], failedLinks = [], browser = 1, restarted_at = [], events = []\<rparr>"

definition entry_A :: "string \<Rightarrow> productData \<Rightarrow> string \<times> productData" where
  "entry_A url data = (url, data)"

text \<open>\<open>part_000\<close> line 348: \<open>url.split('/products/')[1]\<close>, \<open>None\<close> for \<open>undefined\<close>.\<close>

definition id_of :: "string \<Rightarrow> string option" where
  "id_of url = at_index (split_on ''/products/'' url) 1"

definition entry_D ::
  "string \<Rightarrow> productData_D \<Rightarrow> string \<times> string option \<times> productData_D"
where
  "entry_D url data = (url, id_of url, data)"

definition main_loop_A where
  "main_loop_A scrape productLinks = main_loop entry_A scrape productLinks 0 initial_state"

definition main_loop_D where
  "main_loop_D scrape productLinks = main_loop entry_D scrape productLinks 0 initial_state"

section \<open>The main loop of variant C\<close>

text \<open>
  \<open>part_000\<close> lines 126 to 149: a \<open>for ... of\<close> loop, no restart and no delay; a failure is
  pushed as \<open>{url, timestamp}\<close>. \<open>n\<close> counts the targets already visited and tells the
  calls of \<open>scrapeProduct\<close> apart; \<open>scrape n url\<close> is the settled call with the log lines
  it appended.
\<close>

record run_state_C =
  scrapedData_C :: "(string \<times> productData_C) list"
  failedLinks_C :: "(string \<times> string) list"
  log_C :: log

definition visit_C ::
  "(nat \<Rightarrow> string \<Rightarrow> productData_C option awaited \<times> log) \<Rightarrow> string \<Rightarrow>
   nat \<Rightarrow> string \<Rightarrow> run_state_C \<Rightarrow> run_state_C"
where
  "visit_C scrape formattedDate n url st =
     (case scrape n url of
        (Resolved (Some data), lg) \<Rightarrow>
          st\<lparr>scrapedData_C := scrapedData_C st @ [(url, data)], log_C := log_C st @ lg\<rparr>
      | (Resolved None, lg) \<Rightarrow>
          st\<lparr>failedLinks_C := failedLinks_C st @ [(url, formattedDate)],
             log_C := log_C st @ lg\<rparr>
      | (Rejected m, lg) \<Rightarrow>
          st\<lparr>failedLinks_C := failedLinks_C st @ [(url, formattedDate)],
             log_C := log_C st @ lg\<rparr>)"

fun main_loop_C ::
  "(nat \<Rightarrow> string \<Rightarrow> productData_C option awaited \<times> log) \<Rightarrow> string \<Rightarrow>
   target list \<Rightarrow> nat \<Rightarrow> run_state_C \<Rightarrow> run_state_C"
where
  "main_loop_C scrape formattedDate [] n st = st"
| "main_loop_C scrape formattedDate (product # rest) n st =
     main_loop_C scrape formattedDate rest (n + 1)
       (visit_C scrape formattedDate n (product_link product) st)"

definition initial_state_C :: run_state_C where
  "initial_state_C = \<lparr>scrapedData_C = [], failedLinks_C = [], log_C = []\<rparr>"

section \<open>Writing the results\<close>

text \<open>
  A file write is the path and the value handed to \<open>JSON.stringify\<close>.
  \<open>unimed-scraper.js\<close> lines 172 to 182 (the same in variant D) and \<open>part_000\<close> lines 151
  to 163.
\<close>

datatype ('s, 'f) file_write = Write_products string "'s list" | Write_failed string "'f list"

definition save_results :: "string \<Rightarrow> 's run_state \<Rightarrow> ('s, string) file_write list" where
  "save_results currentDate st =
     Write_products (''results/products_'' @ currentDate @ ''.json'') (scrapedData st)
     # (if length (failedLinks st) > 0
        then [Write_failed (''failed/failed_links_'' @ currentDate @ ''.json'') (failedLinks st)]
        else [])"

definition save_results_C ::
  "string \<Rightarrow> run_state_C \<Rightarrow> (string \<times> productData_C, string \<times> string) file_write list"
where
  "save_results_C formattedDate st =
     Write_products (''results/scrapedProducts_'' @ formattedDate @ ''.json'') (scrapedData_C st)
     # (if length (failedLinks_C st) > 0
        then [Write_failed (''failed/failedLinks_'' @ formattedDate @ ''.json'') (failedLinks_C st)]
        else [])"

section \<open>Whole runs\<close>

text \<open>
  \<open>web i\<close> is what the browser does for the target of index \<open>i\<close>: its answer to each
  attempt in variants A and D, its one answer in variant C. A run returns the final state
  of the loop and the files written.
\<close>

definition awaited_scrape ::
  "('w \<Rightarrow> string \<Rightarrow> 'r option \<times> 'e) \<Rightarrow> (nat \<Rightarrow> 'w) \<Rightarrow> nat \<Rightarrow> string \<Rightarrow> 'r option awaited \<times> 'e"
where
  "awaited_scrape scrapeProduct web i url =
     (case scrapeProduct (web i) url of (result, evs) \<Rightarrow> (Resolved result, evs))"

definition run_A where
  "run_A web currentDate productLinks =
     (let st = main_loop_A (awaited_scrape scrapeProduct_A web) productLinks
      in (st, save_results currentDate st))"

definition run_D where
  "run_D web currentDate productLinks =
     (let st = main_loop_D (awaited_scrape scrapeProduct_D web) productLinks
      in (st, save_results currentDate st))"

definition run_C where
  "run_C web formattedDate productLinks =
     (let st = main_loop_C (awaited_scrape (scrapeProduct_C formattedDate) web) formattedDate
                 productLinks 0 initial_state_C
      in (st, save_results_C formattedDate st))"

section \<open>Notions used to state the properties\<close>

text \<open>A settled call delivered a record: it resolved with a value other than \<open>null\<close>.\<close>

definition delivered :: "'a option awaited \<Rightarrow> bool" where
  "delivered r = (case r of Resolved (Some _) \<Rightarrow> True | _ \<Rightarrow> False)"

text \<open>The records a settled call delivered: one, or none.\<close>

definition delivery :: "'a option awaited \<Rightarrow> 'a list" where
  "delivery r = (case r of Resolved (Some data) \<Rightarrow> [data] | _ \<Rightarrow> [])"

definition renders :: "page_response \<Rightarrow> bool" where
  "renders response = (case response of Renders _ \<Rightarrow> True | _ \<Rightarrow> False)"

text \<open>
  The string operations above are those of JavaScript on ASCII text. A text is ASCII when
  the top bit of every character is clear.
\<close>

definition ascii :: "string \<Rightarrow> bool" where
  "ascii s = list_all (\<lambda>c. \<not> digit7 c) s"

text \<open>The text of the first row of a table, which is read for the heading.\<close>

definition first_row_text :: "table_row list \<Rightarrow> string" where
  "first_row_text rows = (case rows of [] \<Rightarrow> [] | r # _ \<Rightarrow> row_text r)"

text \<open>
  The image rule in the words of the specification: a candidate is accepted when it is
  not empty and holds no size placeholder; it is normalised by putting \<open>https:\<close> before
  anything that does not start with \<open>http\<close> and by dropping the query string; the
  candidates are the slideshow sources, the gallery sources when the slideshow gave
  nothing, and the lazy sources; the result keeps the first occurrence of each URL.
\<close>

fun first_seen :: "'a list \<Rightarrow> 'a list" where
  "first_seen [] = []"
| "first_seen (x # xs) = x # first_seen (filter (\<lambda>y. y \<noteq> x) xs)"

definition accepted :: "string \<Rightarrow> bool" where
  "accepted imgSrc = (imgSrc \<noteq> [] \<and> \<not> str_includes imgSrc ''{width}'')"

definition normalized :: "string \<Rightarrow> string" where
  "normalized imgSrc =
     strip_query (if startsWith imgSrc ''http'' then imgSrc else ''https:'' @ imgSrc)"

definition candidates :: "document \<Rightarrow> string list" where
  "candidates doc =
     map normalized (filter accepted
       (slideshow_srcs doc
        @ (if filter accepted (slideshow_srcs doc) = [] then gallery_srcs doc else [])
        @ lazy_srcs doc))"

subsection \<open>Concrete pages\<close>

definition blank_document :: document where
  "blank_document =
     \<lparr>title_text = None, sku_text = None, slideshow_srcs = [], gallery_srcs = [],
      lazy_srcs = [], tables = []\<rparr>"

text \<open>A slideshow with the same template image under two query strings.\<close>

definition template_document :: document where
  "template_document =
     blank_document\<lparr>slideshow_srcs :=
       [''//cdn.example.com/a_{width}x.jpg?v=1'', ''//cdn.example.com/a_{width}x.jpg?v=2'']\<rparr>"

text \<open>A page whose three image sources overlap.\<close>

definition gallery_document :: document where
  "gallery_document =
     blank_document\<lparr>
       slideshow_srcs := [''//cdn.example.com/a.jpg?v=1'', ''//cdn.example.com/w_{width}.jpg'',
                          ''https://cdn.example.com/a.jpg?v=2''],
       gallery_srcs := [''//cdn.example.com/g.jpg''],
       lazy_srcs := [''//cdn.example.com/b.jpg'', ''//cdn.example.com/a.jpg'']\<rparr>"

text \<open>The table of the scenario: the heading row, then the row (\<open>ABC-100\<close>, \<open>XYZ-9\<close>).\<close>

definition oem_heading :: table_row where
  "oem_heading =
     \<lparr>strong_text = Some ''OEM Part Number Cross References'',
      row_text = ''OEM Part Number Cross References'',
      cells = [''OEM Part Number Cross References'']\<rparr>"

definition oem_table :: "table_row list" where
  "oem_table =
     [oem_heading, \<lparr>strong_text = None, row_text = ''ABC-100 XYZ-9'', cells = [''ABC-100'', ''XYZ-9'']\<rparr>]"

text \<open>A table headed \<open>Images\<close> with the row (\<open>0\<close>, \<open>X\<close>).\<close>

definition images_table :: "table_row list" where
  "images_table =
     [\<lparr>strong_text = Some ''Images'', row_text = ''Images'', cells = [''Images'']\<rparr>,
      \<lparr>strong_text = None, row_text = ''0 X'', cells = [''0'', ''X'']\<rparr>]"

section \<open>Facts about the string operations\<close>

lemma split_from_not_Nil: "split_from sep cur s \<noteq> []"
  by (induction sep cur s rule: split_from.induct) auto

lemma split_from_char_first:
  "\<exists>rest. split_from [c] cur s = (rev cur @ takeWhile (\<lambda>x. x \<noteq> c) s) # rest"
proof (induction s arbitrary: cur)
  case Nil
  then show ?case by simp
next
  case (Cons a s)
  show ?case
  proof (cases "a = c")
    case True
    then show ?thesis by simp
  next
    case False
    with Cons.IH [of "a # cur"] show ?thesis by simp
  qed
qed

lemma strip_query_takeWhile: "strip_query u = takeWhile (\<lambda>x. x \<noteq> CHR ''?'') u"
proof -
  obtain rest where "split_from ''?'' [] u = takeWhile (\<lambda>x. x \<noteq> CHR ''?'') u # rest"
    using split_from_char_first [of "CHR ''?''" "[]" u] by auto
  then show ?thesis by (simp add: strip_query_def split_on_def)
qed

lemma strip_query_idem: "strip_query (strip_query u) = strip_query u"
  by (simp add: strip_query_takeWhile)

lemma str_includes_iff: "str_includes s t \<longleftrightarrow> (\<exists>p q. s = p @ t @ q)"
proof (induction s)
  case Nil
  then show ?case by auto
next
  case (Cons c cs)
  show ?case
  proof
    assume "str_includes (c # cs) t"
    then consider "prefix t (c # cs)" | "str_includes cs t" by auto
    then show "\<exists>p q. c # cs = p @ t @ q"
    proof cases
      case 1
      then obtain q where "c # cs = t @ q" by (auto simp: prefix_def)
      then have "c # cs = [] @ t @ q" by simp
      then show ?thesis by blast
    next
      case 2
      with Cons.IH obtain p q where "cs = p @ t @ q" by auto
      then have "c # cs = (c # p) @ t @ q" by simp
      then show ?thesis by blast
    qed
  next
    assume "\<exists>p q. c # cs = p @ t @ q"
    then obtain p q where eq: "c # cs = p @ t @ q" by auto
    show "str_includes (c # cs) t"
    proof (cases p)
      case Nil
      with eq have "prefix t (c # cs)" by (simp add: prefix_def)
      then show ?thesis by simp
    next
      case (Cons a p')
      with eq have "cs = p' @ t @ q" by simp
      with Cons.IH have "str_includes cs t" by blast
      then show ?thesis by simp
    qed
  qed
qed

lemma str_includes_middle: "str_includes (p @ t @ q) t"
  unfolding str_includes_iff by blast

lemma str_includes_takeWhile: "str_includes (takeWhile P u) t \<Longrightarrow> str_includes u t"
proof -
  assume "str_includes (takeWhile P u) t"
  then obtain p q where "takeWhile P u = p @ t @ q" by (auto simp: str_includes_iff)
  moreover have "takeWhile P u @ dropWhile P u = u" by simp
  ultimately have "u = p @ t @ (q @ dropWhile P u)" by simp
  then show ?thesis unfolding str_includes_iff by blast
qed

lemma split_from_absent: "\<not> str_includes s sep \<Longrightarrow> split_from sep cur s = [rev cur @ s]"
  by (induction s arbitrary: cur) auto

lemma id_of_absent: "\<not> str_includes url ''/products/'' \<Longrightarrow> id_of url = None"
  by (simp add: id_of_def split_on_def split_from_absent at_index_def)

lemmas string_ops =
  trim_def is_space_def toLowerCase_def lower_char_def spaces_to_underscores_def
  replace_first_with_empty_def

section \<open>Facts about the image set of variant C\<close>

lemma https_no_placeholder:
  "str_includes (''https:'' @ imgSrc) ''{width}'' = str_includes imgSrc ''{width}''"
  by simp

lemma normalized_no_placeholder:
  "accepted imgSrc \<Longrightarrow> \<not> str_includes (normalized imgSrc) ''{width}''"
proof
  assume acc: "accepted imgSrc" and inc: "str_includes (normalized imgSrc) ''{width}''"
  show False
  proof (cases "startsWith imgSrc ''http''")
    case True
    with inc have "str_includes (takeWhile (\<lambda>x. x \<noteq> CHR ''?'') imgSrc) ''{width}''"
      by (simp add: normalized_def strip_query_takeWhile)
    then have "str_includes imgSrc ''{width}''" by (rule str_includes_takeWhile)
    with acc show False by (simp add: accepted_def)
  next
    case False
    with inc have
      "str_includes (takeWhile (\<lambda>x. x \<noteq> CHR ''?'') (''https:'' @ imgSrc)) ''{width}''"
      by (simp add: normalized_def strip_query_takeWhile)
    then have "str_includes (''https:'' @ imgSrc) ''{width}''" by (rule str_includes_takeWhile)
    then have "str_includes imgSrc ''{width}''" by (simp only: https_no_placeholder)
    with acc show False by (simp add: accepted_def)
  qed
qed

lemma strip_query_normalized: "strip_query (normalized imgSrc) = normalized imgSrc"
  by (simp add: normalized_def strip_query_idem)

lemma set_first_seen: "set (first_seen xs) = set xs"
  by (induction xs rule: first_seen.induct) auto

lemma distinct_first_seen: "distinct (first_seen xs)"
  by (induction xs rule: first_seen.induct) (auto simp: set_first_seen)

lemma first_seen_Nil_iff: "first_seen xs = [] \<longleftrightarrow> xs = []"
  by (cases xs) auto

lemma set_add_old: "y \<in> set acc \<Longrightarrow> set_add y acc = acc"
  and set_add_new: "y \<notin> set acc \<Longrightarrow> set_add y acc = acc @ [y]"
  by (simp_all add: set_add_def)

lemma fold_set_add:
  "fold set_add ys acc = acc @ first_seen (filter (\<lambda>y. y \<notin> set acc) ys)"
proof (induction ys arbitrary: acc)
  case Nil
  then show ?case by simp
next
  case (Cons y ys)
  show ?case
  proof (cases "y \<in> set acc")
    case True
    then show ?thesis by (simp add: Cons.IH set_add_old)
  next
    case False
    have "filter (\<lambda>z. z \<noteq> y) (filter (\<lambda>z. z \<notin> set acc) ys) =
        filter (\<lambda>z. z \<notin> set (acc @ [y])) ys"
      by (auto intro: filter_cong)
    with False show ?thesis by (simp add: Cons.IH set_add_new)
  qed
qed

lemma addValidImageUrl_eq:
  "addValidImageUrl imgSrc acc =
     (if accepted imgSrc then set_add (normalized imgSrc) acc else acc)"
  by (simp add: addValidImageUrl_def accepted_def normalized_def Let_def)

lemma fold_addValidImageUrl:
  "fold addValidImageUrl srcs acc = fold set_add (map normalized (filter accepted srcs)) acc"
  by (induction srcs arbitrary: acc) (simp_all add: addValidImageUrl_eq)

lemma collect_images_first_seen: "collect_images doc = first_seen (candidates doc)"
proof -
  have primary: "fold addValidImageUrl (slideshow_srcs doc) [] =
      first_seen (map normalized (filter accepted (slideshow_srcs doc)))"
    by (simp add: fold_addValidImageUrl fold_set_add)
  have empty_iff: "(fold addValidImageUrl (slideshow_srcs doc) [] = []) =
      (filter accepted (slideshow_srcs doc) = [])"
    by (simp add: primary first_seen_Nil_iff)
  have "collect_images doc =
      fold addValidImageUrl
        (slideshow_srcs doc
         @ (if filter accepted (slideshow_srcs doc) = [] then gallery_srcs doc else [])
         @ lazy_srcs doc) []"
  proof (cases "filter accepted (slideshow_srcs doc) = []")
    case True
    with empty_iff have "fold addValidImageUrl (slideshow_srcs doc) [] = []" by simp
    with True show ?thesis by (simp add: collect_images_def)
  next
    case False
    with empty_iff have "fold addValidImageUrl (slideshow_srcs doc) [] \<noteq> []" by simp
    with False show ?thesis by (simp add: collect_images_def)
  qed
  then show ?thesis
    by (simp only: candidates_def fold_addValidImageUrl fold_set_add) simp
qed

lemma candidates_normalized: "e \<in> set (candidates doc) \<Longrightarrow> \<exists>src. accepted src \<and> e = normalized src"
  by (auto simp: candidates_def)

section \<open>Facts about the retry loop\<close>

lemma loop_step_fail:
  "attempts < RETRY_LIMIT \<Longrightarrow> \<not> renders (page attempts) \<Longrightarrow>
   scrapeProduct_loop callback page url attempts =
     (fst (scrapeProduct_loop callback page url (Suc attempts)),
      Goto url # Delay 2000 # snd (scrapeProduct_loop callback page url (Suc attempts)))"
  by (subst scrapeProduct_loop.simps)
     (simp add: renders_def split: page_response.splits prod.splits)

lemma loop_step_success:
  "attempts < RETRY_LIMIT \<Longrightarrow> page attempts = Renders doc \<Longrightarrow>
   scrapeProduct_loop callback page url attempts = (Some (callback doc), [Goto url])"
  by (subst scrapeProduct_loop.simps) simp

lemma loop_exhausted:
  "\<not> attempts < RETRY_LIMIT \<Longrightarrow> scrapeProduct_loop callback page url attempts = (None, [])"
  by (subst scrapeProduct_loop.simps) simp

lemma loop_all_fail:
  assumes "\<And>k. k < RETRY_LIMIT \<Longrightarrow> \<not> renders (page k)"
  shows "scrapeProduct_loop callback page url 0 =
     (None, [Goto url, Delay 2000, Goto url, Delay 2000, Goto url, Delay 2000])"
proof -
  have f: "\<not> renders (page 0)" "\<not> renders (page (Suc 0))" "\<not> renders (page (Suc (Suc 0)))"
    using assms by (simp_all add: RETRY_LIMIT_def)
  have "scrapeProduct_loop callback page url (Suc (Suc (Suc 0))) = (None, [])"
    by (rule loop_exhausted) (simp add: RETRY_LIMIT_def)
  then have "scrapeProduct_loop callback page url (Suc (Suc 0)) = (None, [Goto url, Delay 2000])"
    using f by (simp add: loop_step_fail RETRY_LIMIT_def)
  then have "scrapeProduct_loop callback page url (Suc 0) =
      (None, [Goto url, Delay 2000, Goto url, Delay 2000])"
    using f by (simp add: loop_step_fail RETRY_LIMIT_def)
  then show ?thesis
    using f by (simp add: loop_step_fail RETRY_LIMIT_def)
qed

lemma loop_first_success:
  assumes "k < RETRY_LIMIT" and "page k = Renders doc"
    and "\<And>j. j < k \<Longrightarrow> \<not> renders (page j)"
  shows "scrapeProduct_loop callback page url 0 =
     (Some (callback doc), concat (replicate k [Goto url, Delay 2000]) @ [Goto url])"
proof -
  have "a \<le> k \<Longrightarrow> scrapeProduct_loop callback page url (k - a) =
     (Some (callback doc), concat (replicate a [Goto url, Delay 2000]) @ [Goto url])" for a
  proof (induction a)
    case 0
    with assms(1,2) show ?case by (simp add: loop_step_success)
  next
    case (Suc a)
    then have lt: "k - Suc a < k" and le: "a \<le> k" and eq: "Suc (k - Suc a) = k - a"
      by simp_all
    from lt assms(1) have "k - Suc a < RETRY_LIMIT" by simp
    moreover from lt assms(3) have "\<not> renders (page (k - Suc a))" by simp
    ultimately show ?case
      using Suc.IH [OF le] by (simp add: loop_step_fail eq)
  qed
  from this [of k] show ?thesis by simp
qed

section \<open>Facts about the main loops\<close>

lemma visit_fields:
  "browser (visit entry scrape i url st) = browser st"
  "restarted_at (visit entry scrape i url st) = restarted_at st"
  by (auto simp: visit_def split: prod.splits awaited.splits option.splits)

lemma visit_scrapedData:
  assumes "\<And>url d. u (entry url d) = url"
  shows "map u (scrapedData (visit entry scrape i url st)) =
         map u (scrapedData st) @ (if delivered (fst (scrape i url)) then [url] else [])"
  using assms
  by (auto simp: visit_def delivered_def split: prod.splits awaited.splits option.splits)

lemma visit_failedLinks:
  "failedLinks (visit entry scrape i url st) =
     failedLinks st @ (if delivered (fst (scrape i url)) then [] else [url])"
  by (auto simp: visit_def delivered_def split: prod.splits awaited.splits option.splits)

lemma restart_fields:
  "scrapedData (restart_browser i st) = scrapedData st"
  "failedLinks (restart_browser i st) = failedLinks st"
  "restarted_at (restart_browser i st) = restarted_at st @ [i]"
  "browser (restart_browser i st) = browser st + 1"
  by (simp_all add: restart_browser_def)

lemma main_loop_unfold:
  "i < length links \<Longrightarrow>
   main_loop entry scrape links i st =
   main_loop entry scrape links (Suc i)
     (visit entry scrape i (product_link (links ! i))
        (if i mod BATCH_SIZE = 0 \<and> i \<noteq> 0 then restart_browser i st else st))"
  by (subst main_loop.simps) (simp add: Let_def)

lemma main_loop_done: "\<not> i < length links \<Longrightarrow> main_loop entry scrape links i st = st"
  by (subst main_loop.simps) simp

lemma main_loop_scrapedData:
  assumes u: "\<And>url d. u (entry url d) = url"
  shows "map u (scrapedData (main_loop entry scrape links i st)) =
     map u (scrapedData st) @
     map (\<lambda>j. product_link (links ! j))
       (filter (\<lambda>j. delivered (fst (scrape j (product_link (links ! j))))) [i..<length links])"
proof (induction "length links - i" arbitrary: i st)
  case 0
  then show ?case by (simp add: main_loop_done)
next
  case (Suc n)
  then have lt: "i < length links" and n: "n = length links - Suc i" by simp_all
  show ?case
    by (simp add: main_loop_unfold [OF lt] Suc.hyps(1) [OF n] upt_conv_Cons lt
        visit_scrapedData [of u entry, OF u] restart_fields)
qed

lemma main_loop_failedLinks:
  "failedLinks (main_loop entry scrape links i st) =
     failedLinks st @
     map (\<lambda>j. product_link (links ! j))
       (filter (\<lambda>j. \<not> delivered (fst (scrape j (product_link (links ! j)))))
          [i..<length links])"
proof (induction "length links - i" arbitrary: i st)
  case 0
  then show ?case by (simp add: main_loop_done)
next
  case (Suc n)
  then have lt: "i < length links" and n: "n = length links - Suc i" by simp_all
  show ?case
    by (simp add: main_loop_unfold [OF lt] Suc.hyps(1) [OF n] upt_conv_Cons lt
        visit_failedLinks restart_fields)
qed

lemma main_loop_restarted_at:
  "restarted_at (main_loop entry scrape links i st) =
     restarted_at st @ filter (\<lambda>j. j mod BATCH_SIZE = 0 \<and> j \<noteq> 0) [i..<length links]"
proof (induction "length links - i" arbitrary: i st)
  case 0
  then show ?case by (simp add: main_loop_done)
next
  case (Suc n)
  then have lt: "i < length links" and n: "n = length links - Suc i" by simp_all
  show ?case
    by (simp add: main_loop_unfold [OF lt] Suc.hyps(1) [OF n] upt_conv_Cons lt
        visit_fields restart_fields)
qed

lemma main_loop_browser:
  "browser (main_loop entry scrape links i st) =
     browser st + length (filter (\<lambda>j. j mod BATCH_SIZE = 0 \<and> j \<noteq> 0) [i..<length links])"
proof (induction "length links - i" arbitrary: i st)
  case 0
  then show ?case by (simp add: main_loop_done)
next
  case (Suc n)
  then have lt: "i < length links" and n: "n = length links - Suc i" by simp_all
  show ?case
    by (simp add: main_loop_unfold [OF lt] Suc.hyps(1) [OF n] upt_conv_Cons lt
        visit_fields restart_fields)
qed

lemma visit_C_scraped:
  "map fst (scrapedData_C (visit_C scrape d n url st)) =
     map fst (scrapedData_C st) @ (if delivered (fst (scrape n url)) then [url] else [])"
  by (auto simp: visit_C_def delivered_def split: prod.splits awaited.splits option.splits)

lemma visit_C_failed:
  "map fst (failedLinks_C (visit_C scrape d n url st)) =
     map fst (failedLinks_C st) @ (if delivered (fst (scrape n url)) then [] else [url])"
  by (auto simp: visit_C_def delivered_def split: prod.splits awaited.splits option.splits)

lemma upt_0_Suc: "[0..<Suc m] = 0 # map Suc [0..<m]"
  by (simp add: upt_conv_Cons map_Suc_upt del: upt_Suc)

lemma main_loop_C_scraped:
  "map fst (scrapedData_C (main_loop_C scrape d links n st)) =
     map fst (scrapedData_C st) @
     map (\<lambda>j. product_link (links ! j))
       (filter (\<lambda>j. delivered (fst (scrape (n + j) (product_link (links ! j)))))
          [0..<length links])"
proof (induction links arbitrary: n st)
  case Nil
  then show ?case by simp
next
  case (Cons p rest)
  show ?case
    by (simp add: Cons.IH visit_C_scraped upt_0_Suc filter_map comp_def del: upt_Suc)
qed

lemma main_loop_C_failed:
  "map fst (failedLinks_C (main_loop_C scrape d links n st)) =
     map fst (failedLinks_C st) @
     map (\<lambda>j. product_link (links ! j))
       (filter (\<lambda>j. \<not> delivered (fst (scrape (n + j) (product_link (links ! j)))))
          [0..<length links])"
proof (induction links arbitrary: n st)
  case Nil
  then show ?case by simp
next
  case (Cons p rest)
  show ?case
    by (simp add: Cons.IH visit_C_failed upt_0_Suc filter_map comp_def del: upt_Suc)
qed

lemma delivered_awaited_scrape:
  "delivered (fst (awaited_scrape scrapeProduct web i url)) =
     (fst (scrapeProduct (web i) url) \<noteq> None)"
  by (cases "scrapeProduct (web i) url")
     (auto simp: awaited_scrape_def delivered_def split: option.splits)

lemma delivered_delivery: "delivered r = (delivery r \<noteq> [])"
  by (simp add: delivered_def delivery_def split: awaited.splits option.splits)

lemma visit_entries:
  "scrapedData (visit entry scrape i url st) =
     scrapedData st @ map (entry url) (delivery (fst (scrape i url)))"
  by (auto simp: visit_def delivery_def split: prod.splits awaited.splits option.splits)

lemma main_loop_entries:
  "scrapedData (main_loop entry scrape links i st) =
     scrapedData st @
     concat (map (\<lambda>j. map (entry (product_link (links ! j)))
                         (delivery (fst (scrape j (product_link (links ! j))))))
               [i..<length links])"
proof (induction "length links - i" arbitrary: i st)
  case 0
  then show ?case by (simp add: main_loop_done)
next
  case (Suc n)
  then have lt: "i < length links" and n: "n = length links - Suc i" by simp_all
  show ?case
    by (simp add: main_loop_unfold [OF lt] Suc.hyps(1) [OF n] upt_conv_Cons lt
        visit_entries restart_fields)
qed

lemma visit_C_entries:
  "scrapedData_C (visit_C scrape d n url st) =
     scrapedData_C st @ map (Pair url) (delivery (fst (scrape n url)))"
  "failedLinks_C (visit_C scrape d n url st) =
     failedLinks_C st @ (if delivery (fst (scrape n url)) = [] then [(url, d)] else [])"
  by (auto simp: visit_C_def delivery_def split: prod.splits awaited.splits option.splits)

lemma main_loop_C_entries:
  "scrapedData_C (main_loop_C scrape d links n st) =
     scrapedData_C st @
     concat (map (\<lambda>j. map (Pair (product_link (links ! j)))
                         (delivery (fst (scrape (n + j) (product_link (links ! j))))))
               [0..<length links])"
proof (induction links arbitrary: n st)
  case Nil
  then show ?case by simp
next
  case (Cons p rest)
  show ?case
    by (simp add: Cons.IH visit_C_entries upt_0_Suc comp_def del: upt_Suc)
qed

lemma main_loop_C_failed_entries:
  "failedLinks_C (main_loop_C scrape d links n st) =
     failedLinks_C st @
     map (\<lambda>j. (product_link (links ! j), d))
       (filter (\<lambda>j. delivery (fst (scrape (n + j) (product_link (links ! j)))) = [])
          [0..<length links])"
proof (induction links arbitrary: n st)
  case Nil
  then show ?case by simp
next
  case (Cons p rest)
  show ?case
    by (simp add: Cons.IH visit_C_entries upt_0_Suc filter_map comp_def del: upt_Suc)
qed

lemma partition_mset:
  "mset (map f (filter P xs)) + mset (map f (filter (\<lambda>x. \<not> P x) xs)) = mset (map f xs)"
  by (induction xs) auto

lemma map_nth_upt: "map (\<lambda>j. f (xs ! j)) [0..<length xs] = map f xs"
  by (rule nth_equalityI) simp_all

lemma some_filtered: "(map f (filter P [0..<n]) \<noteq> []) = (\<exists>i<n. P i)"
  by (auto simp: filter_empty_conv)

section \<open>Facts about the tables\<close>

lemma state_of_simps [simp]:
  "state_of (Running st) = st"
  "state_of (Thrown e st) = st"
  by (simp_all add: state_of_def)

lemma inherited_not_images: "inherited rlm name \<noteq> Images_array"
proof -
  have "(if P then Object_prototype
         else case m of Some v \<Rightarrow> Text v
              | None \<Rightarrow> if Q then Object_function else if R then Method else Undefined)
        \<noteq> Images_array" for P Q R and m :: "string option"
    by (simp split: option.splits)
  then show ?thesis unfolding inherited_def .
qed

lemma put_section_images:
  assumes "sectionName \<noteq> ''images''"
  shows "images (fst (state_of (put_section sectionName key v st))) = images (fst st)"
proof (cases st)
  case (Pair data rlm)
  from assms have "data_property rlm data sectionName \<noteq> Images_array"
    by (simp add: data_property_def inherited_not_images)
  then show ?thesis
    by (cases "data_property rlm data sectionName")
       (simp_all add: Pair put_section_def section_put_def split: sum.splits)
qed

lemma table_row_step_images:
  "sectionName \<noteq> ''images'' \<Longrightarrow>
   images (fst (state_of (table_row_step sectionName r st))) = images (fst st)"
  by (simp add: table_row_step_def put_section_images Let_def split: list.splits)

lemma continue_images:
  assumes "\<And>st. images (fst (state_of (f st))) = images (fst st)"
  shows "images (fst (state_of (continue f c))) = images (fst (state_of c))"
  using assms by (cases c) (simp_all add: continue_def)

lemma process_table_images:
  assumes "sectionName_of rows \<noteq> ''images''"
  shows "images (fst (state_of (process_table rows c))) = images (fst (state_of c))"
proof -
  have "images (fst (state_of
            (fold (\<lambda>r. continue (table_row_step (sectionName_of rows) r)) rs c))) =
        images (fst (state_of c))" for rs
    by (induction rs arbitrary: c)
       (simp_all add: continue_images table_row_step_images [OF assms])
  then show ?thesis by (simp add: process_table_def)
qed

lemma fold_process_table_images:
  "\<forall>rows \<in> set ts. sectionName_of rows \<noteq> ''images'' \<Longrightarrow>
   images (fst (state_of (fold process_table ts c))) = images (fst (state_of c))"
  by (induction ts arbitrary: c) (simp_all add: process_table_images)

lemmas extract_defs =
  extract_A_def extract_C_def process_table_def sectionName_of_def table_row_step_def
  resolve_heading_def section_guard_def put_section_def section_put_def data_property_def
  inherited_def truthy_def function_put_def continue_def state_of_def fresh_realm_def
  text_or_empty_def push_images_def array_put_def array_index_def digit_value_def object_put_def

lemmas extract_D_defs =
  extract_D_def collect_tempData_def collect_temp_def process_table_D_def table_row_step_D_def
  put_temp_def temp_put_def temp_property_def temp_guard_def sectionName_of_D_def
  render_sections_def category_of_def createTableHTML_def own_entries_def resolve_heading_def
  inherited_def truthy_def function_put_def continue_def state_of_def fresh_realm_def
  text_or_empty_def push_images_def array_index_def digit_value_def object_put_def

section \<open>The claims\<close>

subsection \<open>C1: every target lands in exactly one of the two outputs\<close>

text \<open>
  Claim C1. For every run of the main loop over any list of targets, and whatever the
  calls of \<open>scrapeProduct\<close> do (return a record, return \<open>null\<close>, or throw): the succeeded
  collection holds, in the order of the input, the URL of each target whose call delivered
  a record, paired with that record; the failed collection holds, in the order of the
  input, the URL of each other target (with the date, in variant C); so the URLs of the
  two collections together are exactly the URLs of the input, each occurrence of a target
  counted once. Stated for the loop of variant A and the loop of variant C.
\<close>

theorem targets_partitioned:
  "scrapedData (main_loop_A scrape links) =
     concat (map (\<lambda>j. map (Pair (product_link (links ! j)))
                         (delivery (fst (scrape j (product_link (links ! j))))))
               [0..<length links])
   \<and> failedLinks (main_loop_A scrape links) =
     map (\<lambda>j. product_link (links ! j))
       (filter (\<lambda>j. delivery (fst (scrape j (product_link (links ! j)))) = [])
          [0..<length links])
   \<and> mset (map fst (scrapedData (main_loop_A scrape links)))
     + mset (failedLinks (main_loop_A scrape links)) = mset (map product_link links)
   \<and> scrapedData_C (main_loop_C scrape_C d links 0 initial_state_C) =
     concat (map (\<lambda>j. map (Pair (product_link (links ! j)))
                         (delivery (fst (scrape_C j (product_link (links ! j))))))
               [0..<length links])
   \<and> failedLinks_C (main_loop_C scrape_C d links 0 initial_state_C) =
     map (\<lambda>j. (product_link (links ! j), d))
       (filter (\<lambda>j. delivery (fst (scrape_C j (product_link (links ! j)))) = [])
          [0..<length links])
   \<and> mset (map fst (scrapedData_C (main_loop_C scrape_C d links 0 initial_state_C)))
     + mset (map fst (failedLinks_C (main_loop_C scrape_C d links 0 initial_state_C)))
     = mset (map product_link links)"
proof (intro conjI)
  have entry: "entry_A = Pair"
    by (simp add: entry_A_def fun_eq_iff)
  show "scrapedData (main_loop_A scrape links) =
     concat (map (\<lambda>j. map (Pair (product_link (links ! j)))
                         (delivery (fst (scrape j (product_link (links ! j))))))
               [0..<length links])"
    by (simp add: main_loop_A_def main_loop_entries initial_state_def entry)
  show "failedLinks (main_loop_A scrape links) =
     map (\<lambda>j. product_link (links ! j))
       (filter (\<lambda>j. delivery (fst (scrape j (product_link (links ! j)))) = [])
          [0..<length links])"
    by (simp add: main_loop_A_def main_loop_failedLinks initial_state_def delivered_delivery)
  show "mset (map fst (scrapedData (main_loop_A scrape links)))
     + mset (failedLinks (main_loop_A scrape links)) = mset (map product_link links)"
    using partition_mset [of "\<lambda>j. product_link (links ! j)"
        "\<lambda>j. delivered (fst (scrape j (product_link (links ! j))))" "[0..<length links]"]
    by (simp add: main_loop_A_def main_loop_scrapedData [of fst entry_A] main_loop_failedLinks
        entry_A_def initial_state_def map_nth_upt)
  show "scrapedData_C (main_loop_C scrape_C d links 0 initial_state_C) =
     concat (map (\<lambda>j. map (Pair (product_link (links ! j)))
                         (delivery (fst (scrape_C j (product_link (links ! j))))))
               [0..<length links])"
    by (simp add: main_loop_C_entries initial_state_C_def)
  show "failedLinks_C (main_loop_C scrape_C d links 0 initial_state_C) =
     map (\<lambda>j. (product_link (links ! j), d))
       (filter (\<lambda>j. delivery (fst (scrape_C j (product_link (links ! j)))) = [])
          [0..<length links])"
    by (simp add: main_loop_C_failed_entries initial_state_C_def)
  show "mset (map fst (scrapedData_C (main_loop_C scrape_C d links 0 initial_state_C)))
     + mset (map fst (failedLinks_C (main_loop_C scrape_C d links 0 initial_state_C)))
     = mset (map product_link links)"
    using partition_mset [of "\<lambda>j. product_link (links ! j)"
        "\<lambda>j. delivered (fst (scrape_C j (product_link (links ! j))))" "[0..<length links]"]
    by (simp add: main_loop_C_scraped main_loop_C_failed initial_state_C_def map_nth_upt)
qed

subsection \<open>C2: three attempts, two seconds apart, then \<open>null\<close>\<close>

text \<open>
  Claim C2. In variants A and D, when none of the first three attempts renders the page,
  \<open>scrapeProduct\<close> makes exactly three navigations, each followed by a delay of 2000 ms
  (so a delay separates consecutive attempts, and one more follows the third), and returns
  \<open>null\<close>. When attempt \<open>k\<close> (counted from 0, below 3) is the first to render, it returns the
  record extracted from that page after \<open>k\<close> failed attempts with their delays and one
  last navigation, with nothing after it.
\<close>

theorem retry_policy:
  "((\<forall>k<3. \<not> renders (page k)) \<longrightarrow>
      scrapeProduct_A page url =
        (None, [Goto url, Delay 2000, Goto url, Delay 2000, Goto url, Delay 2000])
      \<and> scrapeProduct_D page url =
        (None, [Goto url, Delay 2000, Goto url, Delay 2000, Goto url, Delay 2000]))
   \<and> (k < 3 \<and> page k = Renders doc \<and> (\<forall>j<k. \<not> renders (page j)) \<longrightarrow>
      scrapeProduct_A page url =
        (Some (extract_A doc), concat (replicate k [Goto url, Delay 2000]) @ [Goto url])
      \<and> scrapeProduct_D page url =
        (Some (extract_D doc), concat (replicate k [Goto url, Delay 2000]) @ [Goto url]))"
proof (intro conjI impI)
  assume "\<forall>k<3. \<not> renders (page k)"
  then have fail: "\<And>k. k < RETRY_LIMIT \<Longrightarrow> \<not> renders (page k)"
    by (simp add: RETRY_LIMIT_def)
  show "scrapeProduct_A page url =
        (None, [Goto url, Delay 2000, Goto url, Delay 2000, Goto url, Delay 2000])"
    unfolding scrapeProduct_A_def by (rule loop_all_fail) (rule fail)
  show "scrapeProduct_D page url =
        (None, [Goto url, Delay 2000, Goto url, Delay 2000, Goto url, Delay 2000])"
    unfolding scrapeProduct_D_def by (rule loop_all_fail) (rule fail)
next
  assume h: "k < 3 \<and> page k = Renders doc \<and> (\<forall>j<k. \<not> renders (page j))"
  then have k: "k < RETRY_LIMIT" and r: "page k = Renders doc"
    and before: "\<And>j. j < k \<Longrightarrow> \<not> renders (page j)"
    by (simp_all add: RETRY_LIMIT_def)
  show "scrapeProduct_A page url =
        (Some (extract_A doc), concat (replicate k [Goto url, Delay 2000]) @ [Goto url])"
    unfolding scrapeProduct_A_def using k r before by (rule loop_first_success)
  show "scrapeProduct_D page url =
        (Some (extract_D doc), concat (replicate k [Goto url, Delay 2000]) @ [Goto url])"
    unfolding scrapeProduct_D_def using k r before by (rule loop_first_success)
qed

theorem retry_policy_witness:
  "scrapeProduct_A (\<lambda>k. Goto_rejects ''timeout'') ''u'' =
     (None, [Goto ''u'', Delay 2000, Goto ''u'', Delay 2000, Goto ''u'', Delay 2000])
   \<and> scrapeProduct_A
       (\<lambda>k. if k = 0 then WaitForSelector_rejects ''timeout'' else Renders blank_document) ''u'' =
     (Some (extract_A blank_document), [Goto ''u'', Delay 2000, Goto ''u''])"
proof
  have "\<forall>k<3. \<not> renders (Goto_rejects ''timeout'')"
    by (simp add: renders_def)
  with retry_policy [of "\<lambda>k. Goto_rejects ''timeout''" "''u''"]
  show "scrapeProduct_A (\<lambda>k. Goto_rejects ''timeout'') ''u'' =
     (None, [Goto ''u'', Delay 2000, Goto ''u'', Delay 2000, Goto ''u'', Delay 2000])"
    by blast
next
  let ?page = "\<lambda>k::nat. if k = 0 then WaitForSelector_rejects ''timeout'' else Renders blank_document"
  have "(1::nat) < 3 \<and> ?page 1 = Renders blank_document \<and> (\<forall>j<1. \<not> renders (?page j))"
    by (simp add: renders_def)
  with retry_policy [of ?page "''u''" 1 blank_document]
  have "scrapeProduct_A ?page ''u'' =
     (Some (extract_A blank_document), concat (replicate 1 [Goto ''u'', Delay 2000]) @ [Goto ''u''])"
    by blast
  then show "scrapeProduct_A ?page ''u'' =
     (Some (extract_A blank_document), [Goto ''u'', Delay 2000, Goto ''u''])"
    by simp
qed

subsection \<open>C3: the browser restarts at the nonzero multiples of 50\<close>

text \<open>
  Claim C3. In variants A and D the restart block runs exactly at the indices \<open>i\<close> of the
  input with \<open>i mod 50 = 0\<close> and \<open>i \<noteq> 0\<close>, in increasing order, never at index 0, and each
  time it runs it replaces the browser by a newly launched one: at the end of the loop the
  number of browsers launched is one more than the number of these indices. With 120
  targets the block runs at 50 and at 100 and nowhere else, and three browsers have been
  launched.
\<close>

theorem restart_indices:
  "restarted_at (main_loop_A scrape links) =
     filter (\<lambda>i. i mod 50 = 0 \<and> i \<noteq> 0) [0..<length links]
   \<and> restarted_at (main_loop_D scrape_D links) =
     filter (\<lambda>i. i mod 50 = 0 \<and> i \<noteq> 0) [0..<length links]
   \<and> browser (main_loop_A scrape links) =
     1 + length (filter (\<lambda>i. i mod 50 = 0 \<and> i \<noteq> 0) [0..<length links])
   \<and> browser (main_loop_D scrape_D links) =
     1 + length (filter (\<lambda>i. i mod 50 = 0 \<and> i \<noteq> 0) [0..<length links])
   \<and> 0 \<notin> set (restarted_at (main_loop_A scrape links))
   \<and> 0 \<notin> set (restarted_at (main_loop_D scrape_D links))
   \<and> (length links = 120 \<longrightarrow>
        restarted_at (main_loop_A scrape links) = [50, 100]
        \<and> restarted_at (main_loop_D scrape_D links) = [50, 100]
        \<and> browser (main_loop_A scrape links) = 3
        \<and> browser (main_loop_D scrape_D links) = 3)"
proof -
  have 120: "filter (\<lambda>i. i mod 50 = 0 \<and> i \<noteq> 0) [0..<120] = [50, 100::nat]"
    by code_simp
  have A: "restarted_at (main_loop_A scrape links) =
     filter (\<lambda>i. i mod 50 = 0 \<and> i \<noteq> 0) [0..<length links]"
    by (simp add: main_loop_A_def main_loop_restarted_at initial_state_def BATCH_SIZE_def)
  have D: "restarted_at (main_loop_D scrape_D links) =
     filter (\<lambda>i. i mod 50 = 0 \<and> i \<noteq> 0) [0..<length links]"
    by (simp add: main_loop_D_def main_loop_restarted_at initial_state_def BATCH_SIZE_def)
  have bA: "browser (main_loop_A scrape links) =
     1 + length (filter (\<lambda>i. i mod 50 = 0 \<and> i \<noteq> 0) [0..<length links])"
    by (simp add: main_loop_A_def main_loop_browser initial_state_def BATCH_SIZE_def)
  have bD: "browser (main_loop_D scrape_D links) =
     1 + length (filter (\<lambda>i. i mod 50 = 0 \<and> i \<noteq> 0) [0..<length links])"
    by (simp add: main_loop_D_def main_loop_browser initial_state_def BATCH_SIZE_def)
  show ?thesis
    unfolding A D bA bD using 120 by auto
qed

theorem restart_indices_witness:
  "length (replicate 120 \<lparr>product_link = ''u''\<rparr>) = 120
   \<and> restarted_at (main_loop_A (\<lambda>i url. (Resolved None, [])) (replicate 120 \<lparr>product_link = ''u''\<rparr>))
       = [50, 100]
   \<and> browser (main_loop_A (\<lambda>i url. (Resolved None, [])) (replicate 120 \<lparr>product_link = ''u''\<rparr>))
       = 3"
proof -
  have len: "length (replicate 120 \<lparr>product_link = ''u''\<rparr>) = 120"
    by simp
  from restart_indices [of "\<lambda>i url. (Resolved None, [])"
      "replicate 120 \<lparr>product_link = ''u''\<rparr>" "\<lambda>i url. (Resolved None, [])"] len
  show ?thesis by blast
qed

subsection \<open>C4: the images of a record\<close>

text \<open>
  Claim C4 says that the images of every extracted record are free of duplicates after
  query stripping, free of placeholder URLs, and in first-seen order. It fails for
  variant A, which pushes every non-empty \<open>data-original-src\<close> as it comes: on
  \<^const>\<open>template_document\<close> the record holds two entries that are equal once the query
  is stripped, and both contain \<open>{width}\<close>.
\<close>

theorem images_pushed_unfiltered:
  "images (extract_A template_document) =
     [Some ''https://cdn.example.com/a_{width}x.jpg?v=1'',
      Some ''https://cdn.example.com/a_{width}x.jpg?v=2'']
   \<and> strip_query ''https://cdn.example.com/a_{width}x.jpg?v=1'' =
       strip_query ''https://cdn.example.com/a_{width}x.jpg?v=2''
   \<and> str_includes ''https://cdn.example.com/a_{width}x.jpg?v=1'' ''{width}''"
  by (simp add: template_document_def blank_document_def extract_defs strip_query_def split_on_def)

text \<open>
  Claim C4 as amended. In variant C the URLs assembled by the image step (lines 46 to 75)
  are pairwise different after query stripping, none contains \<open>{width}\<close>, and they are the
  accepted, normalised candidates in first-seen order; they are the images of the record
  whenever the first row of every table of the page has an ASCII text and no table has a
  heading that normalises to \<open>images\<close>.
\<close>

theorem collected_images_unique:
  "distinct (map strip_query (collect_images doc))
   \<and> (\<forall>e \<in> set (collect_images doc). \<not> str_includes e ''{width}'')
   \<and> collect_images doc = first_seen (candidates doc)
   \<and> ((\<forall>rows \<in> set (tables doc).
          ascii (first_row_text rows) \<and> sectionName_of rows \<noteq> ''images'') \<longrightarrow>
        images (extract_C doc) = map Some (collect_images doc))"
proof (intro conjI ballI impI)
  have fixed: "map strip_query (collect_images doc) = collect_images doc"
  proof (rule map_idI)
    fix e assume "e \<in> set (collect_images doc)"
    then have "e \<in> set (candidates doc)"
      by (simp add: collect_images_first_seen set_first_seen)
    then obtain src where "e = normalized src"
      using candidates_normalized by blast
    then show "strip_query e = e" by (simp add: strip_query_normalized)
  qed
  show "distinct (map strip_query (collect_images doc))"
    unfolding fixed by (simp add: collect_images_first_seen distinct_first_seen)
next
  fix e assume "e \<in> set (collect_images doc)"
  then have "e \<in> set (candidates doc)"
    by (simp add: collect_images_first_seen set_first_seen)
  then obtain src where "accepted src" "e = normalized src"
    using candidates_normalized by blast
  then show "\<not> str_includes e ''{width}''"
    by (simp add: normalized_no_placeholder)
next
  show "collect_images doc = first_seen (candidates doc)"
    by (rule collect_images_first_seen)
next
  assume "\<forall>rows \<in> set (tables doc).
            ascii (first_row_text rows) \<and> sectionName_of rows \<noteq> ''images''"
  then have "\<forall>rows \<in> set (tables doc). sectionName_of rows \<noteq> ''images''"
    by simp
  then show "images (extract_C doc) = map Some (collect_images doc)"
    by (simp add: extract_C_def fold_process_table_images)
qed

theorem collected_images_unique_witness:
  "images (extract_C (gallery_document\<lparr>tables := [oem_table]\<rparr>)) =
     [Some ''https://cdn.example.com/a.jpg'', Some ''https://cdn.example.com/b.jpg'']
   \<and> \<not> str_includes ''https://cdn.example.com/a.jpg'' ''{width}''
   \<and> \<not> str_includes ''https://cdn.example.com/b.jpg'' ''{width}''"
proof -
  let ?doc = "gallery_document\<lparr>tables := [oem_table]\<rparr>"
  have eq: "collect_images ?doc =
     [''https://cdn.example.com/a.jpg'', ''https://cdn.example.com/b.jpg'']"
    by (simp add: gallery_document_def blank_document_def collect_images_def addValidImageUrl_def
        strip_query_def split_on_def startsWith_def set_add_def)
  have tables: "\<forall>rows \<in> set (tables ?doc).
      ascii (first_row_text rows) \<and> sectionName_of rows \<noteq> ''images''"
    by (simp add: oem_table_def oem_heading_def sectionName_of_def resolve_heading_def string_ops
        ascii_def first_row_text_def)
  from collected_images_unique [of ?doc] tables
  have "(\<forall>e \<in> set (collect_images ?doc). \<not> str_includes e ''{width}'')
      \<and> images (extract_C ?doc) = map Some (collect_images ?doc)"
    by blast
  with eq show ?thesis by simp
qed

subsection \<open>C5: a table under an unknown heading\<close>

text \<open>
  Claim C5 says that a table whose heading resolves to none of the three sections adds
  nothing to the record. The guard \<open>sectionName && data[sectionName]\<close> of variants A and C
  also lets through the name of any other truthy property of \<open>data\<close>. On a page without
  images whose only table is headed \<open>Images\<close> and has the row (\<open>0\<close>, \<open>X\<close>), the section
  name is \<open>images\<close>, which is none of the three, and the row is stored as element 0 of the
  images of the record. Variant D, which looks the name up in \<open>tempData\<close>, collects nothing
  from this table.
\<close>

theorem images_heading_writes_images:
  "sectionName_of images_table = ''images''
   \<and> images (extract_A blank_document) = []
   \<and> images (extract_A (blank_document\<lparr>tables := [images_table]\<rparr>)) = [Some ''X'']
   \<and> images (extract_C (blank_document\<lparr>tables := [images_table]\<rparr>)) = [Some ''X'']
   \<and> collect_tempData (blank_document\<lparr>tables := [images_table]\<rparr>) =
       collect_tempData blank_document"
  by (simp add: images_table_def blank_document_def extract_defs extract_D_defs string_ops
      collect_images_def)

subsection \<open>C6: the OEM scenario\<close>




subsection \<open>C7: the files written at the end of a run\<close>

text \<open>
  Claim C7. After the loop, a run of variant A or C writes the succeeded records to a file
  named from the date, whatever the records are, and then writes the failed targets, to a
  second file named from the date, exactly when \<open>scrapeProduct\<close> returned \<open>null\<close> for at
  least one target.
\<close>

theorem results_written:
  "snd (run_A web d links) =
     Write_products (''results/products_'' @ d @ ''.json'') (scrapedData (fst (run_A web d links)))
     # (if \<exists>i<length links. fst (scrapeProduct_A (web i) (product_link (links ! i))) = None
        then [Write_failed (''failed/failed_links_'' @ d @ ''.json'')
                (failedLinks (fst (run_A web d links)))]
        else [])
   \<and> snd (run_C web_C d links) =
     Write_products (''results/scrapedProducts_'' @ d @ ''.json'')
       (scrapedData_C (fst (run_C web_C d links)))
     # (if \<exists>i<length links. fst (scrapeProduct_C d (web_C i) (product_link (links ! i))) = None
        then [Write_failed (''failed/failedLinks_'' @ d @ ''.json'')
                (failedLinks_C (fst (run_C web_C d links)))]
        else [])"
proof -
  let ?A = "main_loop_A (awaited_scrape scrapeProduct_A web) links"
  let ?C = "main_loop_C (awaited_scrape (scrapeProduct_C d) web_C) d links 0 initial_state_C"
  have A: "(failedLinks ?A \<noteq> []) =
      (\<exists>i<length links. fst (scrapeProduct_A (web i) (product_link (links ! i))) = None)"
    by (simp only: main_loop_A_def main_loop_failedLinks initial_state_def some_filtered
        run_state.simps append_Nil delivered_awaited_scrape not_not)
  have "(map fst (failedLinks_C ?C) \<noteq> []) =
      (\<exists>i<length links. fst (scrapeProduct_C d (web_C i) (product_link (links ! i))) = None)"
    by (simp only: main_loop_C_failed initial_state_C_def some_filtered
        run_state_C.simps list.map append_Nil add_0 delivered_awaited_scrape not_not)
  then have C: "(failedLinks_C ?C \<noteq> []) =
      (\<exists>i<length links. fst (scrapeProduct_C d (web_C i) (product_link (links ! i))) = None)"
    by simp
  show ?thesis
    using A C by (simp add: run_A_def run_C_def Let_def save_results_def save_results_C_def)
qed

subsection \<open>C8: a record without images is logged and kept\<close>

text \<open>
  Claim C8. In variant C, when the page of a target renders and the record returned by
  the callback of \<open>page.evaluate\<close> has no images, whatever that callback is, \<open>scrapeProduct\<close>
  appends to the log file of the date one line, which contains the URL, and returns the
  record with the date; the main loop pushes the target with that record to the succeeded
  collection and leaves the failed collection as it was.
\<close>

theorem empty_images_logged_and_kept:
  "length (images (callback doc)) = 0 \<and> web n = Renders doc \<longrightarrow>
     scrapeProduct_once callback d (web n) url =
       (Some (productData.extend (callback doc) (productData_C.fields d)),
        [(''logs/image_scraping_errors_'' @ d @ ''.log'',
          d @ '' - URL: '' @ url @ '' - Error: No images found for this product'' @ [CHR 0x0A])])
     \<and> str_includes
         (d @ '' - URL: '' @ url @ '' - Error: No images found for this product'' @ [CHR 0x0A]) url
     \<and> visit_C (awaited_scrape (scrapeProduct_once callback d) web) d n url st =
         st\<lparr>scrapedData_C := scrapedData_C st
               @ [(url, productData.extend (callback doc) (productData_C.fields d))],
            log_C := log_C st
               @ [(''logs/image_scraping_errors_'' @ d @ ''.log'',
                   d @ '' - URL: '' @ url @ '' - Error: No images found for this product''
                     @ [CHR 0x0A])]\<rparr>"
proof (intro impI conjI)
  assume h: "length (images (callback doc)) = 0 \<and> web n = Renders doc"
  then show scrape: "scrapeProduct_once callback d (web n) url =
       (Some (productData.extend (callback doc) (productData_C.fields d)),
        [(''logs/image_scraping_errors_'' @ d @ ''.log'',
          d @ '' - URL: '' @ url @ '' - Error: No images found for this product'' @ [CHR 0x0A])])"
    by (simp add: scrapeProduct_once_def logErrorToFile_def)
  show "str_includes
         (d @ '' - URL: '' @ url @ '' - Error: No images found for this product'' @ [CHR 0x0A]) url"
    using str_includes_middle [of "d @ '' - URL: ''" url
        "'' - Error: No images found for this product'' @ [CHR 0x0A]"]
    by simp
  show "visit_C (awaited_scrape (scrapeProduct_once callback d) web) d n url st =
         st\<lparr>scrapedData_C := scrapedData_C st
               @ [(url, productData.extend (callback doc) (productData_C.fields d))],
            log_C := log_C st
               @ [(''logs/image_scraping_errors_'' @ d @ ''.log'',
                   d @ '' - URL: '' @ url @ '' - Error: No images found for this product''
                     @ [CHR 0x0A])]\<rparr>"
    by (simp add: visit_C_def awaited_scrape_def scrape)
qed

theorem empty_images_logged_and_kept_witness:
  "scrapeProduct_C ''2024-05-01'' (Renders blank_document) ''https://shop.example.com/products/p1'' =
     (Some (productData.extend (extract_C blank_document) (productData_C.fields ''2024-05-01'')),
      [(''logs/image_scraping_errors_2024-05-01.log'',
        ''2024-05-01 - URL: https://shop.example.com/products/p1 - Error: No images found for this product''
          @ [CHR 0x0A])])
   \<and> failedLinks_C (visit_C (awaited_scrape (scrapeProduct_C ''2024-05-01'')
                                (\<lambda>n. Renders blank_document))
        ''2024-05-01'' 0 ''https://shop.example.com/products/p1'' initial_state_C) = []"
proof -
  have h: "length (images (extract_C blank_document)) = 0 \<and>
      (\<lambda>n::nat. Renders blank_document) 0 = Renders blank_document"
    by (simp add: extract_C_def blank_document_def collect_images_def state_of_def)
  have C: "scrapeProduct_C ''2024-05-01'' = scrapeProduct_once extract_C ''2024-05-01''"
    by (simp add: scrapeProduct_C_def fun_eq_iff)
  from empty_images_logged_and_kept [of extract_C blank_document "\<lambda>n. Renders blank_document" 0
      "''2024-05-01''" "''https://shop.example.com/products/p1''" initial_state_C] h
  show ?thesis unfolding C by (simp add: initial_state_C_def)
qed

subsection \<open>C9: both outputs keep the order of the input\<close>

text \<open>
  Claim C9. In variants A and C the URLs of the succeeded collection are the URLs of the
  targets that delivered a record, listed by increasing index of the input, and the URLs
  of the failed collection are those of the other targets, listed by increasing index.
\<close>

theorem outputs_keep_input_order:
  "map fst (scrapedData (main_loop_A scrape links)) =
     map (\<lambda>j. product_link (links ! j))
       (filter (\<lambda>j. delivered (fst (scrape j (product_link (links ! j))))) [0..<length links])
   \<and> failedLinks (main_loop_A scrape links) =
     map (\<lambda>j. product_link (links ! j))
       (filter (\<lambda>j. \<not> delivered (fst (scrape j (product_link (links ! j))))) [0..<length links])
   \<and> map fst (scrapedData_C (main_loop_C scrape_C d links 0 initial_state_C)) =
     map (\<lambda>j. product_link (links ! j))
       (filter (\<lambda>j. delivered (fst (scrape_C j (product_link (links ! j))))) [0..<length links])
   \<and> map fst (failedLinks_C (main_loop_C scrape_C d links 0 initial_state_C)) =
     map (\<lambda>j. product_link (links ! j))
       (filter (\<lambda>j. \<not> delivered (fst (scrape_C j (product_link (links ! j))))) [0..<length links])"
  by (simp add: main_loop_A_def main_loop_scrapedData [of fst entry_A] main_loop_failedLinks
      entry_A_def initial_state_def main_loop_C_scraped main_loop_C_failed initial_state_C_def)

subsection \<open>C10: a URL without the product marker\<close>

text \<open>
  Claim C10. In variant D, when the URL of a target does not contain \<open>/products/\<close> and the
  call of \<open>scrapeProduct\<close> delivers a record, the derived id is \<open>undefined\<close>, the triple of
  the URL, that id and the record is pushed to the succeeded collection, and the failed
  collection is left as it was.
\<close>

theorem missing_marker_gives_undefined_id:
  "\<not> str_includes url ''/products/'' \<and> fst (scrape i url) = Resolved (Some data) \<longrightarrow>
     id_of url = None
     \<and> scrapedData (visit entry_D scrape i url st) = scrapedData st @ [(url, None, data)]
     \<and> failedLinks (visit entry_D scrape i url st) = failedLinks st"
proof (intro impI conjI)
  assume h: "\<not> str_includes url ''/products/'' \<and> fst (scrape i url) = Resolved (Some data)"
  then show no_id: "id_of url = None" by (simp add: id_of_absent)
  from h obtain evs where "scrape i url = (Resolved (Some data), evs)"
    by (cases "scrape i url") auto
  then show "scrapedData (visit entry_D scrape i url st) = scrapedData st @ [(url, None, data)]"
    and "failedLinks (visit entry_D scrape i url st) = failedLinks st"
    by (simp_all add: visit_def entry_D_def no_id)
qed

theorem missing_marker_gives_undefined_id_witness:
  "id_of ''https://shop.example.com/item/42'' = None
   \<and> scrapedData (visit entry_D (\<lambda>i url. (Resolved (Some (extract_D blank_document)), []))
        0 ''https://shop.example.com/item/42'' initial_state) =
      [(''https://shop.example.com/item/42'', None, extract_D blank_document)]
   \<and> id_of ''https://shop.example.com/products/p1'' = Some ''p1''"
proof -
  have h: "\<not> str_includes ''https://shop.example.com/item/42'' ''/products/'' \<and>
     fst ((\<lambda>i url. (Resolved (Some (extract_D blank_document)), [])) (0::nat)
            ''https://shop.example.com/item/42'') = Resolved (Some (extract_D blank_document))"
    by simp
  have p1: "id_of ''https://shop.example.com/products/p1'' = Some ''p1''"
    by (simp add: id_of_def split_on_def at_index_def)
  from missing_marker_gives_undefined_id [of "''https://shop.example.com/item/42''"
      "\<lambda>i url. (Resolved (Some (extract_D blank_document)), [])" 0
      "extract_D blank_document" initial_state] h p1
  show ?thesis by (simp add: initial_state_def)
qed

end
